theory Spec2Isabelle
  imports
    Complex_Main
    "HOL-Library.Char_ord"
    "HOL-Library.List_Lexorder"
    "HOL-Library.Log_Nat"
    "HOL-Library.Multiset"
    "HOL-Library.Product_Lexorder"
begin

section \<open>Task manager: data model\<close>

text \<open>
  The enumerations of \<^verbatim>\<open>task_manager.py\<close>. Each member carries a display label
  (its \<^verbatim>\<open>.value\<close>), which is what is written to disk and what the listing sorts by.
\<close>

datatype Priority = LOW | MEDIUM | HIGH | URGENT

datatype Status = PENDING | IN_PROGRESS | COMPLETED | CANCELLED

fun priority_value :: "Priority \<Rightarrow> string" where
  "priority_value LOW = ''Low''"
| "priority_value MEDIUM = ''Medium''"
| "priority_value HIGH = ''High''"
| "priority_value URGENT = ''Urgent''"

fun status_value :: "Status \<Rightarrow> string" where
  "status_value PENDING = ''Pending''"
| "status_value IN_PROGRESS = ''In Progress''"
| "status_value COMPLETED = ''Completed''"
| "status_value CANCELLED = ''Cancelled''"

text \<open>
  A naive (zone-less) \<^verbatim>\<open>datetime.datetime\<close>: the seven fields the interpreter keeps.
  Python only ever builds values that satisfy \<open>valid_datetime\<close>.
\<close>

record datetime =
  year :: nat
  month :: nat
  day :: nat
  hour :: nat
  minute :: nat
  second :: nat
  microsecond :: nat

definition is_leap :: "nat \<Rightarrow> bool" where
  "is_leap y = (y mod 4 = 0 \<and> (y mod 100 \<noteq> 0 \<or> y mod 400 = 0))"

definition days_in_month :: "nat \<Rightarrow> nat \<Rightarrow> nat" where
  "days_in_month y m =
     (if m = 2 then (if is_leap y then 29 else 28)
      else if m = 4 \<or> m = 6 \<or> m = 9 \<or> m = 11 then 30 else 31)"

definition valid_date :: "nat \<Rightarrow> nat \<Rightarrow> nat \<Rightarrow> bool" where
  "valid_date y m d =
     (1 \<le> y \<and> y \<le> 9999 \<and> 1 \<le> m \<and> m \<le> 12 \<and> 1 \<le> d \<and> d \<le> days_in_month y m)"

definition valid_datetime :: "datetime \<Rightarrow> bool" where
  "valid_datetime t =
     (valid_date (year t) (month t) (day t) \<and> hour t < 24 \<and> minute t < 60 \<and>
      second t < 60 \<and> microsecond t < 1000000)"

definition mk_datetime :: "nat \<Rightarrow> nat \<Rightarrow> nat \<Rightarrow> nat \<Rightarrow> nat \<Rightarrow> nat \<Rightarrow> nat \<Rightarrow> datetime" where
  "mk_datetime y mo d h mi s us =
     \<lparr>year = y, month = mo, day = d, hour = h, minute = mi, second = s, microsecond = us\<rparr>"

text \<open>\<^verbatim>\<open>datetime.datetime.max\<close>.\<close>

definition datetime_max :: datetime where
  "datetime_max = mk_datetime 9999 12 31 23 59 59 999999"

text \<open>Naive datetimes compare as the tuple of their fields, lexicographically.\<close>

definition dt_tuple :: "datetime \<Rightarrow> nat \<times> nat \<times> nat \<times> nat \<times> nat \<times> nat \<times> nat" where
  "dt_tuple t = (year t, month t, day t, hour t, minute t, second t, microsecond t)"

definition dt_less :: "datetime \<Rightarrow> datetime \<Rightarrow> bool" where
  "dt_less a b = (dt_tuple a < dt_tuple b)"

text \<open>
  What \<^verbatim>\<open>json.load\<close> hands to the program: \<^verbatim>\<open>None\<close>, booleans, integers, strings,
  lists and dictionaries. A dictionary is the list of its items in insertion order, its
  keys distinct. Numbers with a fraction or an exponent (Python floats) are not part of
  this model.
\<close>

datatype json =
    JNull
  | JBool bool
  | JInt int
  | JStr string
  | JArr "json list"
  | JObj "(string \<times> json) list"

text \<open>
  The class \<^verbatim>\<open>Task\<close>. Python does not enforce the annotations of the constructor, and
  \<^verbatim>\<open>from_dict\<close> stores whatever the document holds for \<^verbatim>\<open>id\<close>, \<^verbatim>\<open>title\<close>,
  \<^verbatim>\<open>description\<close> and \<^verbatim>\<open>category\<close>, so these four fields are decoded values.
  (The field \<^verbatim>\<open>id\<close> is named \<open>task_id\<close> here.)
\<close>

record Task =
  task_id :: json
  title :: json
  description :: json
  category :: json
  priority :: Priority
  status :: Status
  created_at :: datetime
  updated_at :: datetime
  due_date :: "datetime option"
  completed_at :: "datetime option"

text \<open>
  The exceptions that occur. The handler of \<^verbatim>\<open>load_tasks\<close> names \<^verbatim>\<open>JSONDecodeError\<close>,
  \<^verbatim>\<open>KeyError\<close> and \<^verbatim>\<open>FileNotFoundError\<close>; no other exception listed here is a subclass of
  one of these, so it catches exactly these three. (\<^verbatim>\<open>JSONDecodeError\<close> and
  \<^verbatim>\<open>UnicodeDecodeError\<close> are both subclasses of \<^verbatim>\<open>ValueError\<close>, neither of the other;
  \<open>OSError\<close> stands for the errors of opening a file other than \<^verbatim>\<open>FileNotFoundError\<close>.)

  \<open>Unmodelled\<close> is not an exception. It is the outcome of a library call on an argument
  outside the part of its domain that this theory describes (the interpreter versions
  differ there). No handler catches it, so an operation that meets it has the outcome
  \<open>Unmodelled\<close> as a whole: the theory then says nothing about what the program does.
\<close>

datatype py_error =
    JSONDecodeError | KeyError | FileNotFoundError | ValueError | TypeError | AttributeError
  | UnicodeDecodeError | OSError | ZeroDivisionError | Unmodelled

section \<open>Task entity\<close>

text \<open>
  \<^verbatim>\<open>Task.update_status\<close>. The method reads the clock twice, once for \<^verbatim>\<open>updated_at\<close>
  and once more for \<^verbatim>\<open>completed_at\<close>; \<open>now1\<close> and \<open>now2\<close> are these two readings.
\<close>

definition update_status :: "Task \<Rightarrow> Status \<Rightarrow> datetime \<Rightarrow> datetime \<Rightarrow> Task" where
  "update_status t new_status now1 now2 =
     (let t1 = t\<lparr>status := new_status\<rparr>;
          t2 = t1\<lparr>updated_at := now1\<rparr>
      in if new_status = COMPLETED then t2\<lparr>completed_at := Some now2\<rparr> else t2)"

text \<open>\<^verbatim>\<open>Task.is_overdue\<close>, with the clock reading it takes as \<open>now\<close>.\<close>

definition is_overdue :: "datetime \<Rightarrow> Task \<Rightarrow> bool" where
  "is_overdue now t =
     (case due_date t of
        None \<Rightarrow> False
      | Some d \<Rightarrow> if status t \<noteq> COMPLETED then dt_less d now else False)"


section \<open>Decimal fields of the textual formats\<close>

definition digit_char :: "nat \<Rightarrow> char" where
  "digit_char d = ''0123456789'' ! d"

definition is_digit :: "char \<Rightarrow> bool" where
  "is_digit c = (CHR ''0'' \<le> c \<and> c \<le> CHR ''9'')"

definition digit_val :: "char \<Rightarrow> nat" where
  "digit_val c = of_char c - 48"

text \<open>
  \<open>zpad k n\<close> is \<^verbatim>\<open>"%0kd" % n\<close> for \<open>n < 10 ^ k\<close>, the only case a valid datetime
  produces (four digits of year, two of month, ..., six of microsecond).
\<close>

fun zpad :: "nat \<Rightarrow> nat \<Rightarrow> string" where
  "zpad 0 n = []"
| "zpad (Suc k) n = zpad k (n div 10) @ [digit_char (n mod 10)]"

definition digits_value :: "string \<Rightarrow> nat" where
  "digits_value s = foldl (\<lambda>a c. 10 * a + digit_val c) 0 s"

text \<open>Reads exactly \<open>k\<close> ASCII digits from the front of the text.\<close>

definition read_digits :: "nat \<Rightarrow> string \<Rightarrow> (nat \<times> string) option" where
  "read_digits k s =
     (if k \<le> length s \<and> list_all is_digit (take k s)
      then Some (digits_value (take k s), drop k s) else None)"

definition expect :: "char \<Rightarrow> string \<Rightarrow> string option" where
  "expect c s = (case s of [] \<Rightarrow> None | x # r \<Rightarrow> if x = c then Some r else None)"

section \<open>Timestamps as text\<close>

text \<open>\<^verbatim>\<open>datetime.isoformat()\<close> of a naive datetime; the fraction is written only when it is not zero.\<close>

definition isoformat :: "datetime \<Rightarrow> string" where
  "isoformat t =
     zpad 4 (year t) @ ''-'' @ zpad 2 (month t) @ ''-'' @ zpad 2 (day t) @ ''T'' @
     zpad 2 (hour t) @ '':'' @ zpad 2 (minute t) @ '':'' @ zpad 2 (second t) @
     (if microsecond t = 0 then [] else ''.'' @ zpad 6 (microsecond t))"

text \<open>
  \<^verbatim>\<open>datetime.fromisoformat\<close>. Described are: the texts every interpreter version rejects
  because they are shorter than seven characters or do not begin with four digits
  (\<^verbatim>\<open>ValueError\<close>); and the layouts \<^verbatim>\<open>YYYY-MM-DD\<close>, \<^verbatim>\<open>YYYY-MM-DD*HH:MM:SS\<close> and
  \<^verbatim>\<open>YYYY-MM-DD*HH:MM:SS.ffffff\<close> (\<^verbatim>\<open>*\<close> any one character), which give the naive datetime
  with these fields, or \<^verbatim>\<open>ValueError\<close> when the fields are out of range. On every other
  text (hours alone, three-digit fractions, zone offsets, the basic and the week formats,
  hour 24) the versions differ or the result is a zone-aware datetime: the outcome there
  is \<open>Unmodelled\<close>.
\<close>

definition parse_iso_time :: "string \<Rightarrow> (nat \<times> nat \<times> nat \<times> nat) option" where
  "parse_iso_time s =
     Option.bind (read_digits 2 s) (\<lambda>(h, r1).
     Option.bind (expect CHR '':'' r1) (\<lambda>r2.
     Option.bind (read_digits 2 r2) (\<lambda>(mi, r3).
     Option.bind (expect CHR '':'' r3) (\<lambda>r4.
     Option.bind (read_digits 2 r4) (\<lambda>(sec, r5).
       if r5 = [] then Some (h, mi, sec, 0)
       else
         Option.bind (expect CHR ''.'' r5) (\<lambda>r6.
         Option.bind (read_digits 6 r6) (\<lambda>(us, r7).
           if r7 = [] then Some (h, mi, sec, us) else None)))))))"

definition parse_iso_date :: "string \<Rightarrow> ((nat \<times> nat \<times> nat) \<times> string) option" where
  "parse_iso_date s =
     Option.bind (read_digits 4 s) (\<lambda>(y, r1).
     Option.bind (expect CHR ''-'' r1) (\<lambda>r2.
     Option.bind (read_digits 2 r2) (\<lambda>(mo, r3).
     Option.bind (expect CHR ''-'' r3) (\<lambda>r4.
     Option.bind (read_digits 2 r4) (\<lambda>(d, r5). Some ((y, mo, d), r5))))))"

definition checked_datetime :: "datetime \<Rightarrow> py_error + datetime" where
  "checked_datetime t =
     (if hour t = 24 then Inl Unmodelled
      else if valid_datetime t then Inr t
      else Inl ValueError)"

definition iso_with_time ::
  "nat \<Rightarrow> nat \<Rightarrow> nat \<Rightarrow> (nat \<times> nat \<times> nat \<times> nat) option \<Rightarrow> py_error + datetime" where
  "iso_with_time y mo d tm =
     (case tm of
        None \<Rightarrow> Inl Unmodelled
      | Some (h, mi, sec, us) \<Rightarrow> checked_datetime (mk_datetime y mo d h mi sec us))"

definition iso_after_date :: "nat \<Rightarrow> nat \<Rightarrow> nat \<Rightarrow> string \<Rightarrow> py_error + datetime" where
  "iso_after_date y mo d r =
     (case r of
        [] \<Rightarrow> checked_datetime (mk_datetime y mo d 0 0 0 0)
      | sep # r' \<Rightarrow> iso_with_time y mo d (parse_iso_time r'))"

definition fromisoformat :: "string \<Rightarrow> py_error + datetime" where
  "fromisoformat s =
     (if length s < 7 \<or> \<not> list_all is_digit (take 4 s) then Inl ValueError
      else (case parse_iso_date s of
              None \<Rightarrow> Inl Unmodelled
            | Some ((y, mo, d), r) \<Rightarrow> iso_after_date y mo d r))"

section \<open>Dates typed by the user\<close>

text \<open>
  The due date reaches \<^verbatim>\<open>_parse_date\<close> as a Python string, a sequence of Unicode
  characters. \<^verbatim>\<open>strptime\<close> tells three kinds of character apart: those of the ASCII
  range; the decimal digits of other scripts (category Nd: the expression's \<^verbatim>\<open>\d\<close> matches
  them and \<^verbatim>\<open>int\<close> reads them), given here by code point and value; and all others,
  given by code point.
\<close>

datatype uchar = Plain char | Digit nat nat | Other nat

type_synonym utext = "uchar list"

definition plain :: "string \<Rightarrow> utext" where
  "plain s = map Plain s"

text \<open>The value of a character that \<^verbatim>\<open>\d\<close> matches.\<close>

fun udigit :: "uchar \<Rightarrow> nat option" where
  "udigit (Plain c) = (if is_digit c then Some (digit_val c) else None)"
| "udigit (Digit cp v) = Some (v mod 10)"
| "udigit (Other cp) = None"

text \<open>A character class of ASCII characters such as \<^verbatim>\<open>[1-9]\<close>.\<close>

fun in_range :: "char \<Rightarrow> char \<Rightarrow> uchar \<Rightarrow> bool" where
  "in_range lo hi (Plain c) = (lo \<le> c \<and> c \<le> hi)"
| "in_range lo hi (Digit cp v) = False"
| "in_range lo hi (Other cp) = False"

text \<open>The value of a character matched by such a class of digits.\<close>

fun plain_val :: "uchar \<Rightarrow> nat" where
  "plain_val (Plain c) = digit_val c"
| "plain_val (Digit cp v) = 0"
| "plain_val (Other cp) = 0"

text \<open>\<^verbatim>\<open>\d\d\d\d\<close>: four characters that \<^verbatim>\<open>\d\<close> matches, read as a number by \<^verbatim>\<open>int\<close>.\<close>

definition year_field :: "utext \<Rightarrow> (nat \<times> utext) option" where
  "year_field s =
     (case s of
        a # b # c # d # r \<Rightarrow>
          Option.bind (udigit a) (\<lambda>va.
          Option.bind (udigit b) (\<lambda>vb.
          Option.bind (udigit c) (\<lambda>vc.
          Option.bind (udigit d) (\<lambda>vd.
            Some (1000 * va + 100 * vb + 10 * vc + vd, r)))))
      | _ \<Rightarrow> None)"

definition expect_plain :: "char \<Rightarrow> utext \<Rightarrow> utext option" where
  "expect_plain c s =
     (case s of [] \<Rightarrow> None | x # r \<Rightarrow> if x = Plain c then Some r else None)"

text \<open>
  \<^verbatim>\<open>strptime\<close> compiles a format to a regular expression and takes the first match the
  backtracking matcher finds: the alternatives of a field are tried in the order written.
  The month field is \<^verbatim>\<open>1[0-2]|0[1-9]|[1-9]\<close>, the day field
  \<^verbatim>\<open>3[0-1]|[1-2]\d|0[1-9]|[1-9]| [1-9]\<close>, the year field \<^verbatim>\<open>\d\d\d\d\<close>. Each function
  below lists the ways its field can match a prefix of the text, in that order, with the
  value \<^verbatim>\<open>int\<close> gives the matched text and the text that remains.
\<close>

definition month_two :: "uchar \<Rightarrow> uchar \<Rightarrow> utext \<Rightarrow> (nat \<times> utext) list" where
  "month_two a b r =
     (if a = Plain CHR ''1'' \<and> in_range CHR ''0'' CHR ''2'' b then [(10 + plain_val b, r)] else []) @
     (if a = Plain CHR ''0'' \<and> in_range CHR ''1'' CHR ''9'' b then [(plain_val b, r)] else [])"

definition field_one :: "uchar \<Rightarrow> utext \<Rightarrow> (nat \<times> utext) list" where
  "field_one a r = (if in_range CHR ''1'' CHR ''9'' a then [(plain_val a, r)] else [])"

definition month_alts :: "utext \<Rightarrow> (nat \<times> utext) list" where
  "month_alts s =
     (case s of a # b # r \<Rightarrow> month_two a b r | _ \<Rightarrow> []) @
     (case s of a # r \<Rightarrow> field_one a r | _ \<Rightarrow> [])"

definition day_teens :: "uchar \<Rightarrow> uchar \<Rightarrow> utext \<Rightarrow> (nat \<times> utext) list" where
  "day_teens a b r =
     (case udigit b of
        None \<Rightarrow> []
      | Some vb \<Rightarrow> if in_range CHR ''1'' CHR ''2'' a then [(10 * plain_val a + vb, r)] else [])"

definition day_two :: "uchar \<Rightarrow> uchar \<Rightarrow> utext \<Rightarrow> (nat \<times> utext) list" where
  "day_two a b r =
     (if a = Plain CHR ''3'' \<and> in_range CHR ''0'' CHR ''1'' b then [(30 + plain_val b, r)] else []) @
     day_teens a b r @
     (if a = Plain CHR ''0'' \<and> in_range CHR ''1'' CHR ''9'' b then [(plain_val b, r)] else [])"

definition day_blank :: "uchar \<Rightarrow> uchar \<Rightarrow> utext \<Rightarrow> (nat \<times> utext) list" where
  "day_blank a b r =
     (if a = Plain CHR '' '' \<and> in_range CHR ''1'' CHR ''9'' b then [(plain_val b, r)] else [])"

definition day_alts :: "utext \<Rightarrow> (nat \<times> utext) list" where
  "day_alts s =
     (case s of a # b # r \<Rightarrow> day_two a b r | _ \<Rightarrow> []) @
     (case s of a # r \<Rightarrow> field_one a r | _ \<Rightarrow> []) @
     (case s of a # b # r \<Rightarrow> day_blank a b r | _ \<Rightarrow> [])"

text \<open>The first alternative whose continuation matches.\<close>

fun first_match :: "('a \<Rightarrow> 'b option) \<Rightarrow> 'a list \<Rightarrow> 'b option" where
  "first_match k [] = None"
| "first_match k (x # xs) = (case k x of Some y \<Rightarrow> Some y | None \<Rightarrow> first_match k xs)"

text \<open>The match of \<^verbatim>\<open>%Y-%m-%d\<close> against the text: year, month, day and what is left over.\<close>

definition match_ymd :: "utext \<Rightarrow> ((nat \<times> nat \<times> nat) \<times> utext) option" where
  "match_ymd s =
     Option.bind (year_field s) (\<lambda>(y, r1).
     Option.bind (expect_plain CHR ''-'' r1) (\<lambda>r2.
       first_match (\<lambda>(mo, r3).
         Option.bind (expect_plain CHR ''-'' r3) (\<lambda>r4.
           first_match (\<lambda>(d, r5). Some ((y, mo, d), r5)) (day_alts r4)))
         (month_alts r2)))"

text \<open>The match of \<^verbatim>\<open>%d/%m/%Y\<close>.\<close>

definition match_dmy :: "utext \<Rightarrow> ((nat \<times> nat \<times> nat) \<times> utext) option" where
  "match_dmy s =
     first_match (\<lambda>(d, r1).
       Option.bind (expect_plain CHR ''/'' r1) (\<lambda>r2.
         first_match (\<lambda>(mo, r3).
           Option.bind (expect_plain CHR ''/'' r3) (\<lambda>r4.
           Option.bind (year_field r4) (\<lambda>(y, r5). Some ((y, mo, d), r5))))
           (month_alts r2)))
       (day_alts s)"

text \<open>
  \<^verbatim>\<open>datetime.strptime\<close> for the two formats: \<^verbatim>\<open>ValueError\<close> when the expression does
  not match, when text remains after the match, or when the fields are not a date of the
  calendar; otherwise midnight of that date.
\<close>

definition strptime_of ::
  "((nat \<times> nat \<times> nat) \<times> utext) option \<Rightarrow> py_error + datetime" where
  "strptime_of found =
     (case found of
        None \<Rightarrow> Inl ValueError
      | Some ((y, mo, d), rest) \<Rightarrow>
          if rest \<noteq> [] then Inl ValueError
          else if valid_date y mo d then Inr (mk_datetime y mo d 0 0 0 0)
          else Inl ValueError)"

definition strptime_ymd :: "utext \<Rightarrow> py_error + datetime" where
  "strptime_ymd s = strptime_of (match_ymd s)"

definition strptime_dmy :: "utext \<Rightarrow> py_error + datetime" where
  "strptime_dmy s = strptime_of (match_dmy s)"

text \<open>
  The \<^verbatim>\<open>try ... except ValueError: pass\<close> around a conversion, followed by
  \<^verbatim>\<open>return None\<close>. The clause catches \<^verbatim>\<open>ValueError\<close> and its subclasses.
\<close>

definition except_ValueError :: "py_error + datetime \<Rightarrow> py_error + datetime option" where
  "except_ValueError r =
     (case r of Inr d \<Rightarrow> Inr (Some d)
      | Inl e \<Rightarrow>
          if e = ValueError \<or> e = JSONDecodeError \<or> e = UnicodeDecodeError then Inr None
          else Inl e)"

text \<open>\<^verbatim>\<open>Task._parse_date\<close>.\<close>

definition parse_date :: "utext \<Rightarrow> py_error + datetime option" where
  "parse_date date_str =
     (if Plain CHR ''-'' \<in> set date_str then except_ValueError (strptime_ymd date_str)
      else if Plain CHR ''/'' \<in> set date_str then except_ValueError (strptime_dmy date_str)
      else Inr None)"

text \<open>
  The due date as \<^verbatim>\<open>Task.__init__\<close> computes it:
  \<^verbatim>\<open>self._parse_date(due_date) if due_date else None\<close>, where \<^verbatim>\<open>None\<close> and the empty
  string are both false.
\<close>

definition init_due_date :: "utext option \<Rightarrow> py_error + datetime option" where
  "init_due_date due =
     (case due of None \<Rightarrow> Inr None
      | Some s \<Rightarrow> if s = [] then Inr None else parse_date s)"

text \<open>Sequencing of steps that may raise.\<close>

definition bindE :: "py_error + 'a \<Rightarrow> ('a \<Rightarrow> py_error + 'b) \<Rightarrow> py_error + 'b" where
  "bindE r k = (case r of Inl e \<Rightarrow> Inl e | Inr v \<Rightarrow> k v)"

text \<open>\<^verbatim>\<open>Task.__init__\<close>; \<open>now1\<close> and \<open>now2\<close> are its two clock readings.\<close>

definition Task_init ::
  "json \<Rightarrow> json \<Rightarrow> json \<Rightarrow> Priority \<Rightarrow> utext option \<Rightarrow> datetime \<Rightarrow> datetime \<Rightarrow> py_error + Task" where
  "Task_init ttl descr cat prio due now1 now2 =
     bindE (init_due_date due) (\<lambda>dd.
       Inr \<lparr>task_id = JNull, title = ttl, description = descr, category = cat,
            priority = prio, status = PENDING, created_at = now1, updated_at = now2,
            due_date = dd, completed_at = None\<rparr>)"

section \<open>Decoded documents\<close>

text \<open>\<^verbatim>\<open>data[key]\<close>: only a dictionary can be indexed by a string, and the key must be there.\<close>

definition py_getitem :: "json \<Rightarrow> string \<Rightarrow> py_error + json" where
  "py_getitem data k =
     (case data of
        JObj kvs \<Rightarrow> (case map_of kvs k of None \<Rightarrow> Inl KeyError | Some v \<Rightarrow> Inr v)
      | _ \<Rightarrow> Inl TypeError)"

text \<open>\<^verbatim>\<open>data.get(key, default)\<close>.\<close>

definition py_get :: "json \<Rightarrow> string \<Rightarrow> json \<Rightarrow> py_error + json" where
  "py_get data k dflt =
     (case data of
        JObj kvs \<Rightarrow> (case map_of kvs k of None \<Rightarrow> Inr dflt | Some v \<Rightarrow> Inr v)
      | _ \<Rightarrow> Inl AttributeError)"

text \<open>The truth value of a decoded value, as \<^verbatim>\<open>if data.get(...)\<close> tests it.\<close>

fun truthy :: "json \<Rightarrow> bool" where
  "truthy JNull = False"
| "truthy (JBool b) = b"
| "truthy (JInt n) = (n \<noteq> 0)"
| "truthy (JStr s) = (s \<noteq> [])"
| "truthy (JArr xs) = (xs \<noteq> [])"
| "truthy (JObj kvs) = (kvs \<noteq> [])"

text \<open>Iteration, as the list comprehension of \<^verbatim>\<open>load_tasks\<close> does it over \<^verbatim>\<open>data['tasks']\<close>.\<close>

fun py_iter :: "json \<Rightarrow> py_error + json list" where
  "py_iter (JArr xs) = Inr xs"
| "py_iter (JStr s) = Inr (map (\<lambda>c. JStr [c]) s)"
| "py_iter (JObj kvs) = Inr (map (\<lambda>kv. JStr (fst kv)) kvs)"
| "py_iter JNull = Inl TypeError"
| "py_iter (JBool b) = Inl TypeError"
| "py_iter (JInt n) = Inl TypeError"

text \<open>\<^verbatim>\<open>Priority(value)\<close> and \<^verbatim>\<open>Status(value)\<close>: the member with that label, else \<^verbatim>\<open>ValueError\<close>.\<close>

definition Priority_of :: "json \<Rightarrow> py_error + Priority" where
  "Priority_of v =
     (if v = JStr ''Low'' then Inr LOW
      else if v = JStr ''Medium'' then Inr MEDIUM
      else if v = JStr ''High'' then Inr HIGH
      else if v = JStr ''Urgent'' then Inr URGENT
      else Inl ValueError)"

definition Status_of :: "json \<Rightarrow> py_error + Status" where
  "Status_of v =
     (if v = JStr ''Pending'' then Inr PENDING
      else if v = JStr ''In Progress'' then Inr IN_PROGRESS
      else if v = JStr ''Completed'' then Inr COMPLETED
      else if v = JStr ''Cancelled'' then Inr CANCELLED
      else Inl ValueError)"

text \<open>\<^verbatim>\<open>datetime.datetime.fromisoformat(value)\<close> on a decoded value.\<close>

definition fromisoformat_json :: "json \<Rightarrow> py_error + datetime" where
  "fromisoformat_json v = (case v of JStr s \<Rightarrow> fromisoformat s | _ \<Rightarrow> Inl TypeError)"

section \<open>Serialisation of a task\<close>

definition optional_iso :: "datetime option \<Rightarrow> json" where
  "optional_iso d = (case d of None \<Rightarrow> JNull | Some t \<Rightarrow> JStr (isoformat t))"

text \<open>\<^verbatim>\<open>Task.to_dict\<close>.\<close>

definition to_dict :: "Task \<Rightarrow> json" where
  "to_dict t =
     JObj [(''id'', task_id t),
           (''title'', title t),
           (''description'', description t),
           (''category'', category t),
           (''priority'', JStr (priority_value (priority t))),
           (''status'', JStr (status_value (status t))),
           (''created_at'', JStr (isoformat (created_at t))),
           (''updated_at'', JStr (isoformat (updated_at t))),
           (''due_date'', optional_iso (due_date t)),
           (''completed_at'', optional_iso (completed_at t))]"

text \<open>An optional timestamp of \<^verbatim>\<open>from_dict\<close>: parsed when the stored value is true, else left as it was.\<close>

definition optional_field :: "json \<Rightarrow> string \<Rightarrow> datetime option \<Rightarrow> py_error + datetime option" where
  "optional_field data k old =
     bindE (py_get data k JNull) (\<lambda>v.
       if truthy v then bindE (fromisoformat_json v) (\<lambda>d. Inr (Some d)) else Inr old)"

text \<open>
  \<^verbatim>\<open>Task.from_dict\<close>, statement by statement. The constructor runs first (and reads the
  clock twice); the fields it has set are then overwritten from the document.
\<close>

definition from_dict :: "json \<Rightarrow> datetime \<Rightarrow> datetime \<Rightarrow> py_error + Task" where
  "from_dict data now1 now2 =
     bindE (py_getitem data ''title'') (\<lambda>ttl.
     bindE (py_get data ''description'' (JStr [])) (\<lambda>descr.
     bindE (py_get data ''category'' (JStr ''General'')) (\<lambda>cat.
     bindE (py_get data ''priority'' (JStr (priority_value MEDIUM))) (\<lambda>pv.
     bindE (Priority_of pv) (\<lambda>prio.
     bindE (Task_init ttl descr cat prio None now1 now2) (\<lambda>task.
     bindE (py_get data ''id'' JNull) (\<lambda>i.
     bindE (py_get data ''status'' (JStr (status_value PENDING))) (\<lambda>sv.
     bindE (Status_of sv) (\<lambda>st.
     bindE (py_getitem data ''created_at'') (\<lambda>cv.
     bindE (fromisoformat_json cv) (\<lambda>ca.
     bindE (py_getitem data ''updated_at'') (\<lambda>uv.
     bindE (fromisoformat_json uv) (\<lambda>ua.
     bindE (optional_field data ''due_date'' (due_date task)) (\<lambda>dd.
     bindE (optional_field data ''completed_at'' (completed_at task)) (\<lambda>co.
       Inr (task\<lparr>task_id := i, status := st, created_at := ca, updated_at := ua,
                 due_date := dd, completed_at := co\<rparr>))))))))))))))))"

section \<open>Task store\<close>

text \<open>
  The file named by \<^verbatim>\<open>self.filename\<close>: not there; there but not to be opened for reading
  (\<^verbatim>\<open>open\<close> raises an \<^verbatim>\<open>OSError\<close> such as \<^verbatim>\<open>PermissionError\<close>); there with bytes that
  are not UTF-8 (\<^verbatim>\<open>json.load\<close> raises \<^verbatim>\<open>UnicodeDecodeError\<close>); there with text that is
  not JSON (\<^verbatim>\<open>json.load\<close> raises \<^verbatim>\<open>JSONDecodeError\<close>); or there with text that decodes to a
  value.
\<close>

datatype file_state = Absent | Unreadable | NotUTF8 | Unparsable | Document json

text \<open>The object \<^verbatim>\<open>TaskManager\<close>, together with the file it reads and rewrites.\<close>

record TaskManager =
  tasks :: "Task list"
  next_id :: json
  disk :: file_state

fun map_raise :: "('a \<Rightarrow> py_error + 'b) \<Rightarrow> 'a list \<Rightarrow> py_error + 'b list" where
  "map_raise f [] = Inr []"
| "map_raise f (x # xs) = bindE (f x) (\<lambda>y. bindE (map_raise f xs) (\<lambda>ys. Inr (y # ys)))"

text \<open>The body of the \<^verbatim>\<open>try\<close> of \<^verbatim>\<open>load_tasks\<close>.\<close>

definition load_body :: "TaskManager \<Rightarrow> datetime \<Rightarrow> py_error + TaskManager" where
  "load_body m now =
     (case disk m of
        Absent \<Rightarrow> Inr m
      | Unreadable \<Rightarrow> Inl OSError
      | NotUTF8 \<Rightarrow> Inl UnicodeDecodeError
      | Unparsable \<Rightarrow> Inl JSONDecodeError
      | Document data \<Rightarrow>
          bindE (py_getitem data ''tasks'') (\<lambda>tv.
          bindE (py_iter tv) (\<lambda>items.
          bindE (map_raise (\<lambda>task_data. from_dict task_data now now) items) (\<lambda>ts.
          bindE (py_get data ''next_id'' (JInt 1)) (\<lambda>nid.
            Inr (m\<lparr>tasks := ts, next_id := nid\<rparr>))))))"

definition caught_by_load :: "py_error \<Rightarrow> bool" where
  "caught_by_load e = (e = JSONDecodeError \<or> e = KeyError \<or> e = FileNotFoundError)"

text \<open>
  \<^verbatim>\<open>TaskManager.load_tasks\<close>. \<open>Inl e\<close>: the exception \<open>e\<close> leaves the method. \<open>Inr (m, r)\<close>:
  the method returns with the store \<open>m\<close>, having printed the error \<open>r\<close> if there was one.
\<close>

definition load_tasks :: "TaskManager \<Rightarrow> datetime \<Rightarrow> py_error + (TaskManager \<times> py_error option)" where
  "load_tasks m now =
     (case load_body m now of
        Inr m' \<Rightarrow> Inr (m', None)
      | Inl e \<Rightarrow>
          if caught_by_load e then Inr (m\<lparr>tasks := [], next_id := JInt 1\<rparr>, Some e)
          else Inl e)"

text \<open>\<^verbatim>\<open>TaskManager.__init__\<close> on a file in the given state.\<close>

definition TaskManager_init :: "file_state \<Rightarrow> datetime \<Rightarrow> py_error + (TaskManager \<times> py_error option)" where
  "TaskManager_init f now = load_tasks \<lparr>tasks = [], next_id = JInt 1, disk = f\<rparr> now"

text \<open>
  \<^verbatim>\<open>TaskManager.save_tasks\<close>. Whether the file can be opened and written is decided outside
  the program. Either the whole document is written, or an exception is raised inside
  the \<^verbatim>\<open>try\<close>; the method then prints it and returns normally, and the file is left in
  some state \<open>f\<close>: as it was when it could not be opened, cut short when the writing broke
  off. The outcome of the write is an argument of every operation that saves.
\<close>

datatype write_outcome = Written | WriteFailed file_state

definition document_of :: "TaskManager \<Rightarrow> json" where
  "document_of m = JObj [(''tasks'', JArr (map to_dict (tasks m))), (''next_id'', next_id m)]"

definition save_tasks :: "TaskManager \<Rightarrow> write_outcome \<Rightarrow> TaskManager" where
  "save_tasks m w =
     (case w of
        Written \<Rightarrow> m\<lparr>disk := Document (document_of m)\<rparr>
      | WriteFailed f \<Rightarrow> m\<lparr>disk := f\<rparr>)"

text \<open>\<^verbatim>\<open>self.next_id += 1\<close>: Python adds one to an integer (a boolean counts as 0 or 1) and raises otherwise.\<close>

fun py_add1 :: "json \<Rightarrow> py_error + json" where
  "py_add1 (JInt n) = Inr (JInt (n + 1))"
| "py_add1 (JBool b) = Inr (JInt ((if b then 1 else 0) + 1))"
| "py_add1 JNull = Inl TypeError"
| "py_add1 (JStr s) = Inl TypeError"
| "py_add1 (JArr xs) = Inl TypeError"
| "py_add1 (JObj kvs) = Inl TypeError"

text \<open>\<^verbatim>\<open>TaskManager.add_task\<close>; the result is the new store and the task returned.\<close>

definition add_task ::
  "TaskManager \<Rightarrow> json \<Rightarrow> json \<Rightarrow> json \<Rightarrow> Priority \<Rightarrow> utext option \<Rightarrow> datetime \<Rightarrow> datetime
     \<Rightarrow> write_outcome \<Rightarrow> py_error + (TaskManager \<times> Task)" where
  "add_task m ttl descr cat prio due now1 now2 w =
     bindE (Task_init ttl descr cat prio due now1 now2) (\<lambda>task0.
       let task = task0\<lparr>task_id := next_id m\<rparr> in
       bindE (py_add1 (next_id m)) (\<lambda>nid.
         let m1 = m\<lparr>next_id := nid\<rparr>;
             m2 = m1\<lparr>tasks := tasks m1 @ [task]\<rparr>
         in Inr (save_tasks m2 w, task)))"

text \<open>\<^verbatim>\<open>task.id == task_id\<close> for an integer \<^verbatim>\<open>task_id\<close>.\<close>

fun id_eq :: "json \<Rightarrow> int \<Rightarrow> bool" where
  "id_eq (JInt n) k = (n = k)"
| "id_eq (JBool b) k = ((if b then 1 else 0) = k)"
| "id_eq JNull k = False"
| "id_eq (JStr s) k = False"
| "id_eq (JArr xs) k = False"
| "id_eq (JObj kvs) k = False"

text \<open>\<^verbatim>\<open>TaskManager.get_task\<close>: the first task with that id.\<close>

definition get_task :: "TaskManager \<Rightarrow> int \<Rightarrow> Task option" where
  "get_task m k = find (\<lambda>t. id_eq (task_id t) k) (tasks m)"

text \<open>
  The task object that \<^verbatim>\<open>get_task\<close> returns is the one in the list, so a method called on
  it changes that element, and \<^verbatim>\<open>self.tasks.remove(task)\<close> (tasks compare by identity)
  removes that element: in both cases the first one with the id.
\<close>

fun update_first :: "('a \<Rightarrow> bool) \<Rightarrow> ('a \<Rightarrow> 'a) \<Rightarrow> 'a list \<Rightarrow> 'a list" where
  "update_first P f [] = []"
| "update_first P f (x # xs) = (if P x then f x # xs else x # update_first P f xs)"

fun remove_first :: "('a \<Rightarrow> bool) \<Rightarrow> 'a list \<Rightarrow> 'a list" where
  "remove_first P [] = []"
| "remove_first P (x # xs) = (if P x then xs else x # remove_first P xs)"

text \<open>\<^verbatim>\<open>TaskManager.update_task_status\<close>.\<close>

definition update_task_status ::
  "TaskManager \<Rightarrow> int \<Rightarrow> Status \<Rightarrow> datetime \<Rightarrow> datetime \<Rightarrow> write_outcome
     \<Rightarrow> TaskManager \<times> bool" where
  "update_task_status m k new_status now1 now2 w =
     (case get_task m k of
        Some task \<Rightarrow>
          (save_tasks (m\<lparr>tasks := update_first (\<lambda>t. id_eq (task_id t) k)
                                  (\<lambda>t. update_status t new_status now1 now2) (tasks m)\<rparr>) w, True)
      | None \<Rightarrow> (m, False))"

text \<open>\<^verbatim>\<open>TaskManager.delete_task\<close>.\<close>

definition delete_task :: "TaskManager \<Rightarrow> int \<Rightarrow> write_outcome \<Rightarrow> TaskManager \<times> bool" where
  "delete_task m k w =
     (case get_task m k of
        Some task \<Rightarrow>
          (save_tasks (m\<lparr>tasks := remove_first (\<lambda>t. id_eq (task_id t) k) (tasks m)\<rparr>) w, True)
      | None \<Rightarrow> (m, False))"

section \<open>Queries\<close>

text \<open>\<^verbatim>\<open>TaskManager.get_tasks_by_status\<close>.\<close>

definition get_tasks_by_status :: "TaskManager \<Rightarrow> Status \<Rightarrow> Task list" where
  "get_tasks_by_status m s = filter (\<lambda>task. status task = s) (tasks m)"





text \<open>
  \<^verbatim>\<open>TaskManager.get_overdue_tasks\<close>. Every call of \<^verbatim>\<open>is_overdue\<close> reads the clock
  anew; \<open>clock i\<close> is the reading taken for the task at position \<open>i\<close>.
\<close>

fun overdue_from :: "(nat \<Rightarrow> datetime) \<Rightarrow> nat \<Rightarrow> Task list \<Rightarrow> Task list" where
  "overdue_from clock i [] = []"
| "overdue_from clock i (task # ts) =
     (if is_overdue (clock i) task then task # overdue_from clock (Suc i) ts
      else overdue_from clock (Suc i) ts)"

definition get_overdue_tasks :: "(nat \<Rightarrow> datetime) \<Rightarrow> TaskManager \<Rightarrow> Task list" where
  "get_overdue_tasks clock m = overdue_from clock 0 (tasks m)"

text \<open>
  \<^verbatim>\<open>TaskManager.get_categories\<close>: \<^verbatim>\<open>list(set(...))\<close>. A set refuses lists and
  dictionaries (\<^verbatim>\<open>TypeError\<close>: unhashable) and keeps the first of several equal values,
  where \<^verbatim>\<open>True == 1\<close> and \<^verbatim>\<open>False == 0\<close>. The order of the resulting list is not
  determined, so the result is the set of its elements.
\<close>

fun hashable :: "json \<Rightarrow> bool" where
  "hashable (JArr xs) = False"
| "hashable (JObj kvs) = False"
| "hashable JNull = True"
| "hashable (JBool b) = True"
| "hashable (JInt n) = True"
| "hashable (JStr s) = True"

fun py_num :: "json \<Rightarrow> int option" where
  "py_num (JInt n) = Some n"
| "py_num (JBool b) = Some (if b then 1 else 0)"
| "py_num JNull = None"
| "py_num (JStr s) = None"
| "py_num (JArr xs) = None"
| "py_num (JObj kvs) = None"

definition py_eq :: "json \<Rightarrow> json \<Rightarrow> bool" where
  "py_eq a b =
     (case py_num a of
        Some x \<Rightarrow> (case py_num b of Some y \<Rightarrow> x = y | None \<Rightarrow> False)
      | None \<Rightarrow> (case py_num b of Some y \<Rightarrow> False | None \<Rightarrow> a = b))"

fun py_set :: "json list \<Rightarrow> json list" where
  "py_set [] = []"
| "py_set (x # xs) = x # filter (\<lambda>y. \<not> py_eq x y) (py_set xs)"

definition get_categories :: "TaskManager \<Rightarrow> py_error + json set" where
  "get_categories m =
     (let cats = map category (tasks m)
      in if list_all hashable cats then Inr (set (py_set cats)) else Inl TypeError)"

text \<open>
  Python's floats are the binary64 numbers of IEEE 754, and both \<^verbatim>\<open>int / int\<close> and the
  product of two floats are correctly rounded: the result is the binary64 number nearest
  to the exact value, the one with even significand when two are equally near. A float
  is represented by the rational number it is.

  \<open>flog2 x\<close> is the exponent \<open>e\<close> with \<open>2\<^sup>e \<le> x < 2\<^sup>e\<^sup>+\<^sup>1\<close> for positive \<open>x\<close>; a binary64 number
  of that size is a multiple of \<open>2\<^sup>e\<^sup>-\<^sup>5\<^sup>2\<close>. The rounding is described for the normal range
  (magnitudes from \<open>2\<^sup>-\<^sup>1\<^sup>0\<^sup>2\<^sup>2\<close> up to the largest float), in which the quotient of two list
  lengths and its product with 100 lie.
\<close>

definition round_half_even :: "rat \<Rightarrow> int" where
  "round_half_even q =
     (let f = \<lfloor>q\<rfloor>
      in if q - of_int f < 1 / 2 then f
         else if 1 / 2 < q - of_int f then f + 1
         else if even f then f else f + 1)"

definition flog2 :: "rat \<Rightarrow> int" where
  "flog2 x = (if 1 \<le> x then bitlen \<lfloor>x\<rfloor> - 1 else - int (ceillog2 (nat \<lceil>1 / x\<rceil>)))"

definition round_pos :: "rat \<Rightarrow> rat" where
  "round_pos x = of_int (round_half_even (x / 2 powi (flog2 x - 52))) * 2 powi (flog2 x - 52)"

definition binary64 :: "rat \<Rightarrow> rat" where
  "binary64 x = (if x = 0 then 0 else if 0 < x then round_pos x else - round_pos (- x))"

text \<open>\<^verbatim>\<open>a / b\<close> for two lengths, and \<^verbatim>\<open>x * y\<close> for a float and a small integer.\<close>

definition py_truediv :: "nat \<Rightarrow> nat \<Rightarrow> py_error + rat" where
  "py_truediv a b =
     (if b = 0 then Inl ZeroDivisionError else Inr (binary64 (of_nat a / of_nat b)))"

definition py_fmul :: "rat \<Rightarrow> rat \<Rightarrow> rat" where
  "py_fmul x y = binary64 (x * y)"

text \<open>
  \<^verbatim>\<open>TaskManager.get_statistics\<close>. The counts are Python integers. The rate is the integer
  0 for an empty store and otherwise the float \<^verbatim>\<open>completed / total * 100\<close>.
\<close>

record Statistics =
  total :: nat
  completed :: nat
  pending :: nat
  in_progress :: nat
  overdue :: nat
  completion_rate :: rat

definition get_statistics :: "(nat \<Rightarrow> datetime) \<Rightarrow> TaskManager \<Rightarrow> py_error + Statistics" where
  "get_statistics clock m =
     (let n = length (tasks m);
          c = length (filter (\<lambda>t. status t = COMPLETED) (tasks m));
          p = length (filter (\<lambda>t. status t = PENDING) (tasks m));
          i = length (filter (\<lambda>t. status t = IN_PROGRESS) (tasks m));
          od = length (get_overdue_tasks clock m)
      in bindE (if n > 0 then bindE (py_truediv c n) (\<lambda>q. Inr (py_fmul q 100)) else Inr 0)
           (\<lambda>rate. Inr \<lparr>total = n, completed = c, pending = p, in_progress = i,
                         overdue = od, completion_rate = rate\<rparr>))"

section \<open>The full listing\<close>

text \<open>
  The key of \<^verbatim>\<open>view_all_tasks\<close>:
  \<^verbatim>\<open>(t.priority.value, t.due_date or datetime.datetime.max)\<close>. Strings compare
  lexicographically by character code, datetimes as their field tuples, and a pair by its
  first component, then its second.
\<close>

definition due_or_max :: "Task \<Rightarrow> datetime" where
  "due_or_max t = (case due_date t of Some d \<Rightarrow> d | None \<Rightarrow> datetime_max)"

definition listing_key :: "Task \<Rightarrow> string \<times> (nat \<times> nat \<times> nat \<times> nat \<times> nat \<times> nat \<times> nat)" where
  "listing_key t = (priority_value (priority t), dt_tuple (due_or_max t))"

text \<open>\<^verbatim>\<open>sorted(self.task_manager.tasks, key=...)\<close>: Python's sort is stable.\<close>

definition sorted_tasks :: "TaskManager \<Rightarrow> Task list" where
  "sorted_tasks m = sort_key listing_key (tasks m)"

section \<open>Runs of the store\<close>

text \<open>
  A call of \<^verbatim>\<open>add_task\<close> with its arguments, its clock readings and the outcome of its
  write, or of \<^verbatim>\<open>delete_task\<close> with its argument and the outcome of its write.
\<close>

datatype op =
    Add json json json Priority "utext option" datetime datetime write_outcome
  | Delete int write_outcome

text \<open>One call; the second component lists the id the call has issued, if it issued one.\<close>

fun apply_op :: "TaskManager \<Rightarrow> op \<Rightarrow> py_error + (TaskManager \<times> json list)" where
  "apply_op m (Add ttl descr cat prio due now1 now2 w) =
     bindE (add_task m ttl descr cat prio due now1 now2 w) (\<lambda>r. Inr (fst r, [task_id (snd r)]))"
| "apply_op m (Delete k w) = Inr (fst (delete_task m k w), [])"

fun run :: "TaskManager \<Rightarrow> op list \<Rightarrow> py_error + (TaskManager \<times> json list)" where
  "run m [] = Inr (m, [])"
| "run m (x # xs) =
     bindE (apply_op m x) (\<lambda>r1.
     bindE (run (fst r1) xs) (\<lambda>r2. Inr (fst r2, snd r1 @ snd r2)))"

text \<open>The store \<^verbatim>\<open>TaskManager()\<close> builds when there is no file.\<close>

definition empty_store :: TaskManager where
  "empty_store = \<lparr>tasks = [], next_id = JInt 1, disk = Absent\<rparr>"

fun is_Add :: "op \<Rightarrow> bool" where
  "is_Add (Add ttl descr cat prio due now1 now2 w) = True"
| "is_Add (Delete k w) = False"

section \<open>The specification's reading of date parsing\<close>

text \<open>
  ParseDate as the specification words it: try the form YYYY-MM-DD first, then the form
  DD/MM/YYYY; none when both fail or when the text is none or empty.
\<close>

definition ParseDate_spec :: "utext option \<Rightarrow> datetime option" where
  "ParseDate_spec text =
     (case text of
        None \<Rightarrow> None
      | Some s \<Rightarrow>
          if s = [] then None
          else (case strptime_ymd s of
                  Inr d \<Rightarrow> Some d
                | Inl e1 \<Rightarrow> (case strptime_dmy s of Inr d \<Rightarrow> Some d | Inl e2 \<Rightarrow> None)))"

text \<open>The characters that the fields of a date can match: digits and the blank.\<close>

definition field_uchar :: "uchar \<Rightarrow> bool" where
  "field_uchar u = (udigit u \<noteq> None \<or> u = Plain CHR '' '')"

section \<open>The specification's reading of the listing order\<close>

text \<open>
  The order of the full listing as the specification words it: ascending by the text of
  the priority's label, then ascending by due date, a task without due date last.
  \<open>due_absent_last a b\<close> says that due date \<open>a\<close> may stand before due date \<open>b\<close>.
\<close>

fun due_absent_last :: "datetime option \<Rightarrow> datetime option \<Rightarrow> bool" where
  "due_absent_last (Some x) (Some y) = (\<not> dt_less y x)"
| "due_absent_last (Some x) None = True"
| "due_absent_last None None = True"
| "due_absent_last None (Some y) = False"

definition listing_order_spec :: "Task \<Rightarrow> Task \<Rightarrow> bool" where
  "listing_order_spec a b =
     (priority_value (priority a) < priority_value (priority b) \<or>
      (priority_value (priority a) = priority_value (priority b) \<and>
       due_absent_last (due_date a) (due_date b)))"

section \<open>Well-formed stores and sample data\<close>



text \<open>The timestamps of a task are datetimes that Python can hold.\<close>

definition valid_optional :: "datetime option \<Rightarrow> bool" where
  "valid_optional d = (case d of None \<Rightarrow> True | Some t \<Rightarrow> valid_datetime t)"

definition valid_task :: "Task \<Rightarrow> bool" where
  "valid_task t =
     (valid_datetime (created_at t) \<and> valid_datetime (updated_at t) \<and>
      valid_optional (due_date t) \<and> valid_optional (completed_at t))"

text \<open>A task with the given id, category, priority, status and due date, for the examples.\<close>

definition sample_task :: "int \<Rightarrow> string \<Rightarrow> Priority \<Rightarrow> Status \<Rightarrow> datetime option \<Rightarrow> Task" where
  "sample_task i cat prio st due =
     \<lparr>task_id = JInt i, title = JStr ''Buy milk'', description = JStr [], category = JStr cat,
      priority = prio, status = st, created_at = mk_datetime 2024 1 2 3 4 5 0,
      updated_at = mk_datetime 2024 1 2 3 4 5 678, due_date = due, completed_at = None\<rparr>"

section \<open>Status transitions\<close>

text \<open>
  Claim C4. For every task and every new status, the transition sets the status to the new
  status and refreshes \<^verbatim>\<open>updated_at\<close> to the clock reading; \<^verbatim>\<open>completed_at\<close> becomes the
  (second) clock reading exactly when the new status is Completed and otherwise keeps the
  value it had, also when the task leaves Completed; every other field is untouched. The
  function is total: no pair of old and new status is rejected.
\<close>

theorem update_status_transition:
  "status (update_status t s now1 now2) = s \<and>
   updated_at (update_status t s now1 now2) = now1 \<and>
   completed_at (update_status t s now1 now2) =
     (if s = COMPLETED then Some now2 else completed_at t) \<and>
   update_status t s now1 now2 =
     t\<lparr>status := s, updated_at := now1,
       completed_at := (if s = COMPLETED then Some now2 else completed_at t)\<rparr>"
  by (simp add: update_status_def Let_def)

section \<open>Lemmas on lists\<close>

lemma first_split:
  "list_ex P xs \<Longrightarrow>
   \<exists>pre t post. xs = pre @ t # post \<and> \<not> list_ex P pre \<and> P t \<and>
     find P xs = Some t \<and>
     update_first P f xs = pre @ f t # post \<and> remove_first P xs = pre @ post"
proof (induction xs)
  case Nil
  then show ?case by simp
next
  case (Cons x xs)
  show ?case
  proof (cases "P x")
    case True
    have "x # xs = [] @ x # xs \<and> \<not> list_ex P [] \<and> P x \<and> find P (x # xs) = Some x \<and>
      update_first P f (x # xs) = [] @ f x # xs \<and> remove_first P (x # xs) = [] @ xs"
      using True by simp
    then show ?thesis by blast
  next
    case False
    with Cons.prems have "list_ex P xs" by simp
    from Cons.IH[OF this] obtain pre t post where
      h: "xs = pre @ t # post" "\<not> list_ex P pre" "P t" "find P xs = Some t"
         "update_first P f xs = pre @ f t # post" "remove_first P xs = pre @ post"
      by blast
    have "x # xs = (x # pre) @ t # post \<and> \<not> list_ex P (x # pre) \<and> P t \<and>
      find P (x # xs) = Some t \<and>
      update_first P f (x # xs) = (x # pre) @ f t # post \<and>
      remove_first P (x # xs) = (x # pre) @ post"
      using False h by simp
    then show ?thesis by blast
  qed
qed

lemma find_None_list_ex: "\<not> list_ex P xs \<Longrightarrow> find P xs = None"
  by (induction xs) auto

section \<open>Operations addressed by id\<close>

lemma found_ops:
  assumes "tasks m = pre @ t # post"
    and "\<not> list_ex (\<lambda>t. id_eq (task_id t) k) pre"
    and "id_eq (task_id t) k"
  shows "update_task_status m k s now1 now2 w =
           (save_tasks (m\<lparr>tasks := pre @ update_status t s now1 now2 # post\<rparr>) w, True)"
    and "delete_task m k w = (save_tasks (m\<lparr>tasks := pre @ post\<rparr>) w, True)"
proof -
  have ex: "list_ex (\<lambda>t. id_eq (task_id t) k) (tasks m)"
    using assms(1,3) by simp
  from first_split[OF ex, of "\<lambda>t. update_status t s now1 now2"]
  obtain pre' t' post' where
    h: "tasks m = pre' @ t' # post'" "\<not> list_ex (\<lambda>t. id_eq (task_id t) k) pre'"
       "id_eq (task_id t') k" "find (\<lambda>t. id_eq (task_id t) k) (tasks m) = Some t'"
       "update_first (\<lambda>t. id_eq (task_id t) k) (\<lambda>t. update_status t s now1 now2) (tasks m)
          = pre' @ update_status t' s now1 now2 # post'"
       "remove_first (\<lambda>t. id_eq (task_id t) k) (tasks m) = pre' @ post'"
    by blast
  have same: "pre' = pre \<and> t' = t \<and> post' = post"
  proof -
    have e: "pre @ t # post = pre' @ t' # post'" using assms(1) h(1) by simp
    have n1: "t \<notin> set pre'" using h(2) assms(3) by (auto simp: list_ex_iff)
    have n2: "t' \<notin> set pre" using assms(2) h(3) by (auto simp: list_ex_iff)
    from e n1 n2 show ?thesis
      by (auto simp: append_eq_append_conv2 append_eq_Cons_conv Cons_eq_append_conv)
  qed
  show "update_task_status m k s now1 now2 w =
           (save_tasks (m\<lparr>tasks := pre @ update_status t s now1 now2 # post\<rparr>) w, True)"
    using h(4,5) same by (simp add: update_task_status_def get_task_def)
  show "delete_task m k w = (save_tasks (m\<lparr>tasks := pre @ post\<rparr>) w, True)"
    using h(4,6) same by (simp add: delete_task_def get_task_def)
qed

lemma not_found_ops:
  assumes "\<not> list_ex (\<lambda>t. id_eq (task_id t) k) (tasks m)"
  shows "update_task_status m k s now1 now2 w = (m, False)"
    and "delete_task m k w = (m, False)"
  using find_None_list_ex[OF assms]
  by (simp_all add: update_task_status_def delete_task_def get_task_def)

text \<open>
  Claim C5, as amended. For every store and every id, \<^verbatim>\<open>update_task_status\<close> and
  \<^verbatim>\<open>delete_task\<close> return true exactly when some task has that id. In that case the first
  such task is the one updated (respectively removed) in memory, nothing else in the list
  and not the counter changes, and the new state is saved: when the write succeeds the
  file holds the document of the new state, tasks and counter; when the write fails the
  file is as the failure left it, and the result is true all the same. When no task has
  the id, both return false and the store (task list, counter and file) is the one they
  were given, whatever a write would have done. Neither can raise: both are total
  functions with a plain result.
\<close>

theorem update_delete_found_iff:
  "snd (update_task_status m k s now1 now2 w) = list_ex (\<lambda>t. id_eq (task_id t) k) (tasks m) \<and>
   snd (delete_task m k w) = list_ex (\<lambda>t. id_eq (task_id t) k) (tasks m) \<and>
   (if list_ex (\<lambda>t. id_eq (task_id t) k) (tasks m)
    then (\<exists>pre t post.
            tasks m = pre @ t # post \<and> \<not> list_ex (\<lambda>t. id_eq (task_id t) k) pre \<and>
            id_eq (task_id t) k \<and>
            tasks (fst (update_task_status m k s now1 now2 w)) =
              pre @ update_status t s now1 now2 # post \<and>
            next_id (fst (update_task_status m k s now1 now2 w)) = next_id m \<and>
            disk (fst (update_task_status m k s now1 now2 w)) =
              (case w of
                 Written \<Rightarrow>
                   Document (JObj [(''tasks'', JArr (map to_dict
                                      (pre @ update_status t s now1 now2 # post))),
                                   (''next_id'', next_id m)])
               | WriteFailed f \<Rightarrow> f) \<and>
            tasks (fst (delete_task m k w)) = pre @ post \<and>
            next_id (fst (delete_task m k w)) = next_id m \<and>
            disk (fst (delete_task m k w)) =
              (case w of
                 Written \<Rightarrow>
                   Document (JObj [(''tasks'', JArr (map to_dict (pre @ post))),
                                   (''next_id'', next_id m)])
               | WriteFailed f \<Rightarrow> f))
    else fst (update_task_status m k s now1 now2 w) = m \<and> fst (delete_task m k w) = m)"
proof (cases "list_ex (\<lambda>t. id_eq (task_id t) k) (tasks m)")
  case True
  from first_split[OF True, of "\<lambda>t. t"]
  obtain pre t post where
    h: "tasks m = pre @ t # post" "\<not> list_ex (\<lambda>t. id_eq (task_id t) k) pre"
       "id_eq (task_id t) k"
    by blast
  note f = found_ops[OF h]
  have u: "tasks (fst (update_task_status m k s now1 now2 w)) =
             pre @ update_status t s now1 now2 # post \<and>
           next_id (fst (update_task_status m k s now1 now2 w)) = next_id m \<and>
           disk (fst (update_task_status m k s now1 now2 w)) =
              (case w of
                 Written \<Rightarrow>
                   Document (JObj [(''tasks'', JArr (map to_dict
                                      (pre @ update_status t s now1 now2 # post))),
                                   (''next_id'', next_id m)])
               | WriteFailed f \<Rightarrow> f)"
    unfolding f(1) by (cases w) (simp_all add: save_tasks_def document_of_def)
  have d: "tasks (fst (delete_task m k w)) = pre @ post \<and>
           next_id (fst (delete_task m k w)) = next_id m \<and>
           disk (fst (delete_task m k w)) =
              (case w of
                 Written \<Rightarrow>
                   Document (JObj [(''tasks'', JArr (map to_dict (pre @ post))),
                                   (''next_id'', next_id m)])
               | WriteFailed f \<Rightarrow> f)"
    unfolding f(2) by (cases w) (simp_all add: save_tasks_def document_of_def)
  have r: "snd (update_task_status m k s now1 now2 w)" "snd (delete_task m k w)"
    by (simp_all add: f)
  have "\<exists>pre t post.
            tasks m = pre @ t # post \<and> \<not> list_ex (\<lambda>t. id_eq (task_id t) k) pre \<and>
            id_eq (task_id t) k \<and>
            tasks (fst (update_task_status m k s now1 now2 w)) =
              pre @ update_status t s now1 now2 # post \<and>
            next_id (fst (update_task_status m k s now1 now2 w)) = next_id m \<and>
            disk (fst (update_task_status m k s now1 now2 w)) =
              (case w of
                 Written \<Rightarrow>
                   Document (JObj [(''tasks'', JArr (map to_dict
                                      (pre @ update_status t s now1 now2 # post))),
                                   (''next_id'', next_id m)])
               | WriteFailed f \<Rightarrow> f) \<and>
            tasks (fst (delete_task m k w)) = pre @ post \<and>
            next_id (fst (delete_task m k w)) = next_id m \<and>
            disk (fst (delete_task m k w)) =
              (case w of
                 Written \<Rightarrow>
                   Document (JObj [(''tasks'', JArr (map to_dict (pre @ post))),
                                   (''next_id'', next_id m)])
               | WriteFailed f \<Rightarrow> f)"
    using h u d by blast
  then show ?thesis using True r by simp
next
  case False
  show ?thesis using False not_found_ops[OF False] by simp
qed

text \<open>
  The claim as the specification states it, true and persisted exactly when the task
  exists, fails where the write fails: on a store with a task of id 1 whose file does not
  exist and cannot be created, both operations return true, and there is still no file.
\<close>

theorem update_true_but_not_written:
  "snd (update_task_status
          \<lparr>tasks = [sample_task 1 ''Work'' LOW PENDING None], next_id = JInt 2, disk = Absent\<rparr>
          1 COMPLETED (mk_datetime 2024 6 1 0 0 0 0) (mk_datetime 2024 6 1 0 0 0 1)
          (WriteFailed Absent)) \<and>
   disk (fst (update_task_status
          \<lparr>tasks = [sample_task 1 ''Work'' LOW PENDING None], next_id = JInt 2, disk = Absent\<rparr>
          1 COMPLETED (mk_datetime 2024 6 1 0 0 0 0) (mk_datetime 2024 6 1 0 0 0 1)
          (WriteFailed Absent))) = Absent \<and>
   snd (delete_task
          \<lparr>tasks = [sample_task 1 ''Work'' LOW PENDING None], next_id = JInt 2, disk = Absent\<rparr>
          1 (WriteFailed Absent)) \<and>
   disk (fst (delete_task
          \<lparr>tasks = [sample_task 1 ''Work'' LOW PENDING None], next_id = JInt 2, disk = Absent\<rparr>
          1 (WriteFailed Absent))) = Absent"
  by (simp add: update_task_status_def delete_task_def get_task_def save_tasks_def
      sample_task_def)

section \<open>Correctly rounded arithmetic\<close>

lemma round_half_even_error: "\<bar>of_int (round_half_even q) - q\<bar> \<le> 1 / 2"
proof -
  define r where "r = q - of_int \<lfloor>q\<rfloor>"
  have r: "0 \<le> r" "r < 1" unfolding r_def by linarith+
  have q: "q = of_int \<lfloor>q\<rfloor> + r" by (simp add: r_def)
  consider "r < 1 / 2" | "1 / 2 < r" | "r = 1 / 2" by linarith
  then show ?thesis
  proof cases
    case 1
    then have "round_half_even q = \<lfloor>q\<rfloor>"
      by (simp add: round_half_even_def Let_def r_def)
    then show ?thesis using r 1 q by simp
  next
    case 2
    then have "round_half_even q = \<lfloor>q\<rfloor> + 1"
      by (simp add: round_half_even_def Let_def r_def)
    then show ?thesis using r 2 q by simp
  next
    case 3
    then have "round_half_even q = \<lfloor>q\<rfloor> \<or> round_half_even q = \<lfloor>q\<rfloor> + 1"
      by (simp add: round_half_even_def Let_def r_def)
    then show ?thesis using r 3 q by auto
  qed
qed

lemma flog2_ge1:
  assumes "1 \<le> x"
  shows "2 powi flog2 x \<le> x \<and> x < 2 powi (flog2 x + 1)"
proof -
  let ?a = "\<lfloor>x\<rfloor>"
  have a: "0 < ?a" using assms by linarith
  from bitlen_bounds[OF a] have b: "2 ^ nat (bitlen ?a - 1) \<le> ?a" "?a < 2 ^ nat (bitlen ?a)"
    by auto
  have b1: "1 \<le> bitlen ?a" using a by (auto simp: bitlen_alt_def)
  have e: "flog2 x = bitlen ?a - 1" using assms by (simp add: flog2_def)
  have lo: "(2::rat) powi (bitlen ?a - 1) = of_int (2 ^ nat (bitlen ?a - 1))"
    using b1 by (simp add: power_int_def)
  have hi: "(2::rat) powi (bitlen ?a) = of_int (2 ^ nat (bitlen ?a))"
    using b1 by (simp add: power_int_def)
  have "(of_int (2 ^ nat (bitlen ?a - 1)) :: rat) \<le> of_int ?a"
    using b(1) by (simp only: of_int_le_iff)
  also have "\<dots> \<le> x" by simp
  finally have l: "2 powi flog2 x \<le> x" by (simp add: e lo)
  have "?a + 1 \<le> 2 ^ nat (bitlen ?a)" using b(2) by simp
  then have "(of_int (?a + 1) :: rat) \<le> of_int (2 ^ nat (bitlen ?a))"
    by (simp only: of_int_le_iff)
  moreover have "x < of_int (?a + 1)" by simp linarith
  ultimately have "x < of_int (2 ^ nat (bitlen ?a))" by linarith
  then have h: "x < 2 powi (flog2 x + 1)" by (simp add: e hi)
  show ?thesis using l h by simp
qed


lemma flog2_lt1:
  assumes "0 < x" "x < 1"
  shows "2 powi flog2 x \<le> x \<and> x < 2 powi (flog2 x + 1)"
proof -
  define y where "y = 1 / x"
  define n where "n = nat \<lceil>y\<rceil>"
  define k where "k = ceillog2 n"
  have y1: "1 < y" using assms by (simp add: y_def)
  have cy: "2 \<le> \<lceil>y\<rceil>" using y1 by linarith
  have n2: "2 \<le> n" using cy unfolding n_def by linarith
  have ny: "y \<le> of_nat n" "of_nat n < y + 1"
  proof -
    have "0 \<le> \<lceil>y\<rceil>" using cy by linarith
    then have "of_nat n = (of_int \<lceil>y\<rceil> :: rat)" unfolding n_def by (simp only: of_nat_nat)
    then show "y \<le> of_nat n" "of_nat n < y + 1" by linarith+
  qed
  have e: "flog2 x = - int k"
    using assms by (simp add: flog2_def k_def n_def y_def)
  have up: "n \<le> 2 ^ k" unfolding k_def by (rule le_two_power_ceillog2)
  have lo: "2 ^ k < 2 * n" unfolding k_def by (rule two_power_ceillog2_gt) (use n2 in simp)
  have kpos: "0 < k"
  proof (rule ccontr)
    assume "\<not> 0 < k"
    then have "k = 0" by simp
    with up n2 show False by simp
  qed
  then obtain j where j: "k = Suc j" by (cases k) auto
  have "2 ^ j < n" using lo j by simp
  then have "2 ^ j + 1 \<le> n" by simp
  then have "(of_nat (2 ^ j + 1) :: rat) \<le> of_nat n" by (simp only: of_nat_le_iff)
  then have jy: "(2::rat) ^ j < y" using ny(2) by simp
  have "y \<le> of_nat (2 ^ k)" using up ny(1) of_nat_le_iff[of n "2 ^ k", where ?'a = rat]
    by linarith
  then have ky: "y \<le> (2::rat) ^ k" by simp
  have xpos: "0 < x" by fact
  have l: "2 powi flog2 x \<le> x"
  proof -
    have "1 / (2::rat) ^ k \<le> 1 / y"
      using ky y1 by (intro divide_left_mono) simp_all
    then show ?thesis using xpos by (simp add: e power_int_minus y_def field_simps)
  qed
  have h: "x < 2 powi (flog2 x + 1)"
  proof -
    have "0 < y * (2::rat) ^ j" using y1 by simp
    then have "1 / y < 1 / (2::rat) ^ j"
      using jy by (intro divide_strict_left_mono) simp_all
    moreover have "flog2 x + 1 = - int j" using e j by simp
    ultimately show ?thesis using xpos by (simp add: power_int_minus y_def field_simps)
  qed
  show ?thesis using l h by simp
qed

lemma flog2_bounds:
  assumes "0 < x"
  shows "2 powi flog2 x \<le> x" and "x < 2 powi (flog2 x + 1)"
  using flog2_ge1[of x] flog2_lt1[of x] assms by (cases "1 \<le> x"; simp)+


lemma round_pos_error:
  assumes "0 < x"
  shows "\<bar>round_pos x - x\<bar> \<le> x / 2 ^ 53"
proof -
  define u :: rat where "u = 2 powi (flog2 x - 52)"
  have upos: "0 < u" by (simp add: u_def)
  have r: "round_pos x = of_int (round_half_even (x / u)) * u"
    by (simp add: round_pos_def u_def)
  have "\<bar>round_pos x - x\<bar> = \<bar>of_int (round_half_even (x / u)) - x / u\<bar> * u"
  proof -
    have "round_pos x - x = (of_int (round_half_even (x / u)) - x / u) * u"
      using upos by (simp add: r field_simps)
    then show ?thesis using upos by (simp add: abs_mult)
  qed
  also have "\<dots> \<le> 1 / 2 * u"
    using round_half_even_error[of "x / u"] upos by (intro mult_right_mono) simp_all
  also have "1 / 2 * u = 2 powi flog2 x / 2 ^ 53"
  proof -
    have "u = 2 powi flog2 x / 2 powi 52" unfolding u_def by (rule power_int_diff) simp
    then show ?thesis by simp
  qed
  also have "\<dots> \<le> x / 2 ^ 53"
    using flog2_bounds(1)[OF assms] by (intro divide_right_mono) simp_all
  finally show ?thesis .
qed

lemma binary64_error:
  assumes "0 \<le> x"
  shows "\<bar>binary64 x - x\<bar> \<le> x / 2 ^ 53" and "0 \<le> binary64 x"
proof -
  show e: "\<bar>binary64 x - x\<bar> \<le> x / 2 ^ 53"
  proof (cases "x = 0")
    case True
    then show ?thesis by (simp add: binary64_def)
  next
    case False
    then have "0 < x" using assms by simp
    then show ?thesis using round_pos_error[of x] by (simp add: binary64_def)
  qed
  have "x / 2 ^ 53 \<le> x" using assms by (simp add: field_simps)
  then show "0 \<le> binary64 x" using e by linarith
qed

lemma float_rate_error:
  assumes "0 \<le> q"
  shows "\<bar>binary64 (binary64 q * 100) - q * 100\<bar> \<le> q * 100 / 2 ^ 51"
    and "0 \<le> binary64 (binary64 q * 100)"
proof -
  define y where "y = binary64 q"
  have y: "\<bar>y - q\<bar> \<le> q / 2 ^ 53" "0 \<le> y"
    unfolding y_def using binary64_error[OF assms] by auto
  have y100: "0 \<le> y * 100" using y(2) by simp
  have z: "\<bar>binary64 (y * 100) - y * 100\<bar> \<le> y * 100 / 2 ^ 53"
    "0 \<le> binary64 (y * 100)"
    using binary64_error[OF y100] by auto
  have yq: "y \<le> q + q / 2 ^ 53" using y(1) by linarith
  have s: "\<bar>(y - q) * 100\<bar> = \<bar>y - q\<bar> * 100"
    by (simp only: abs_mult abs_numeral)
  have d: "binary64 (y * 100) - q * 100 = (binary64 (y * 100) - y * 100) + (y - q) * 100"
    by (simp add: algebra_simps)
  have "\<bar>binary64 (y * 100) - q * 100\<bar> \<le> \<bar>binary64 (y * 100) - y * 100\<bar> + \<bar>(y - q) * 100\<bar>"
    unfolding d by (rule abs_triangle_ineq)
  then have "\<bar>binary64 (y * 100) - q * 100\<bar> \<le> \<bar>binary64 (y * 100) - y * 100\<bar> + \<bar>y - q\<bar> * 100"
    by (simp only: s)
  also have "\<dots> \<le> y * 100 / 2 ^ 53 + q / 2 ^ 53 * 100"
  proof (rule add_mono)
    show "\<bar>binary64 (y * 100) - y * 100\<bar> \<le> y * 100 / 2 ^ 53" by (rule z(1))
    show "\<bar>y - q\<bar> * 100 \<le> q / 2 ^ 53 * 100"
      using y(1) by (rule mult_right_mono) simp
  qed
  also have "\<dots> \<le> (q + q / 2 ^ 53) * 100 / 2 ^ 53 + q / 2 ^ 53 * 100"
  proof -
    have "y * 100 \<le> (q + q / 2 ^ 53) * 100"
      using yq by (rule mult_right_mono) simp
    then have "y * 100 / 2 ^ 53 \<le> (q + q / 2 ^ 53) * 100 / 2 ^ 53"
      by (rule divide_right_mono) simp
    then show ?thesis by (rule add_right_mono)
  qed
  also have "\<dots> \<le> q * 100 / 2 ^ 51"
    using assms by (simp add: field_simps)
  finally show "\<bar>binary64 (binary64 q * 100) - q * 100\<bar> \<le> q * 100 / 2 ^ 51"
    by (simp add: y_def)
  show "0 \<le> binary64 (binary64 q * 100)" using z(2) by (simp add: y_def)
qed


lemma flog2_eqI:
  assumes "0 < x" and "2 powi e \<le> x" and "x < 2 powi (e + 1)"
  shows "flog2 x = e"
proof (rule antisym)
  show "flog2 x \<le> e"
  proof (rule ccontr)
    assume "\<not> flog2 x \<le> e"
    then have "e + 1 \<le> flog2 x" by simp
    then have "(2::rat) powi (e + 1) \<le> 2 powi flog2 x" by (rule power_int_increasing) simp
    with flog2_bounds(1)[OF assms(1)] assms(3) show False by linarith
  qed
  show "e \<le> flog2 x"
  proof (rule ccontr)
    assume "\<not> e \<le> flog2 x"
    then have "flog2 x + 1 \<le> e" by simp
    then have "(2::rat) powi (flog2 x + 1) \<le> 2 powi e" by (rule power_int_increasing) simp
    with flog2_bounds(2)[OF assms(1)] assms(2) show False by linarith
  qed
qed

lemma round_half_even_eqI:
  assumes "\<bar>of_int n - q\<bar> < 1 / 2"
  shows "round_half_even q = n"
proof -
  have "\<bar>(of_int (round_half_even q) :: rat) - of_int n\<bar> < 1"
    using round_half_even_error[of q] assms by linarith
  then have "\<bar>(of_int (round_half_even q - n) :: rat)\<bar> < 1" by simp
  then have "\<bar>round_half_even q - n\<bar> < 1"
    by (simp only: of_int_abs[symmetric] of_int_less_1_iff)
  then show ?thesis by simp
qed

lemma get_statistics_total:
  "\<exists>st. get_statistics clock m = Inr st"
  by (simp add: get_statistics_def py_truediv_def bindE_def Let_def)

lemma binary64_eqI:
  assumes "0 < x" and "2 powi e \<le> x" and "x < 2 powi (e + 1)"
    and "\<bar>of_int n - x / 2 powi (e - 52)\<bar> < 1 / 2"
  shows "binary64 x = of_int n * 2 powi (e - 52)"
proof -
  have e: "flog2 x = e" using assms(1,2,3) by (rule flog2_eqI)
  have "round_half_even (x / 2 powi (e - 52)) = n" using assms(4) by (rule round_half_even_eqI)
  then show ?thesis using assms(1) by (simp add: binary64_def round_pos_def e)
qed

lemma binary64_quotient_example: "binary64 (7 / 25) = 1261007895663739 / 4503599627370496"
proof -
  have "binary64 (7 / 25) = of_int 5044031582654956 * 2 powi (- 2 - 52)"
    by (rule binary64_eqI) (simp_all add: power_int_minus)
  then show ?thesis by (simp add: power_int_minus)
qed

lemma binary64_product_example:
  "binary64 (1261007895663739 / 4503599627370496 * 100) = 7881299347898369 / 281474976710656"
proof -
  have "binary64 (1261007895663739 / 4503599627370496 * 100) =
        of_int 7881299347898369 * 2 powi (4 - 52)"
    by (rule binary64_eqI) (simp_all add: power_int_minus)
  then show ?thesis by (simp add: power_int_minus)
qed

section \<open>Statistics\<close>

lemma overdue_from_length:
  "length (overdue_from clock j ts) =
   length (filter (\<lambda>i. is_overdue (clock (j + i)) (ts ! i)) [0..<length ts])"
proof (induction ts arbitrary: j)
  case Nil
  then show ?case by simp
next
  case (Cons t ts)
  have upt: "[0..<length (t # ts)] = 0 # map Suc [0..<length ts]"
    by (simp add: upt_conv_Cons map_Suc_upt del: upt_Suc)
  have "length (filter (\<lambda>i. is_overdue (clock (j + i)) ((t # ts) ! i)) [0..<length (t # ts)]) =
        (if is_overdue (clock j) t then 1 else 0) +
        length (filter (\<lambda>i. is_overdue (clock (Suc j + i)) (ts ! i)) [0..<length ts])"
    unfolding upt by (simp add: filter_map comp_def)
  then show ?case using Cons.IH[of "Suc j"] by simp
qed

lemma overdue_from_const: "overdue_from (\<lambda>i. now) j ts = filter (is_overdue now) ts"
  by (induction ts arbitrary: j) auto

text \<open>
  Claim C8. For every store, the statistics are computed without an exception, also for
  the empty store. They report the number of tasks as total, the numbers of tasks with
  status Completed, Pending and In Progress under those names, and as overdue the number
  of positions whose task is overdue at the clock reading taken for it (with a clock that
  stands still: the number of overdue tasks). The completion rate is 0 for an empty store,
  where nothing is divided, and otherwise the float that Python computes for
  \<^verbatim>\<open>completed / total * 100\<close>: the correctly rounded product with 100 of the correctly
  rounded quotient. This float is not negative and differs from the exact value of
  completed / total * 100 by at most that value divided by \<open>2\<^sup>5\<^sup>1\<close>.
\<close>

theorem get_statistics_counts:
  "\<exists>st. get_statistics clock m = Inr st \<and>
     total st = length (tasks m) \<and>
     completed st = length (get_tasks_by_status m COMPLETED) \<and>
     pending st = length (get_tasks_by_status m PENDING) \<and>
     in_progress st = length (get_tasks_by_status m IN_PROGRESS) \<and>
     overdue st =
       length (filter (\<lambda>i. is_overdue (clock i) (tasks m ! i)) [0..<length (tasks m)]) \<and>
     completion_rate st =
       (if total st = 0 then 0
        else binary64 (binary64 (of_nat (completed st) / of_nat (total st)) * 100)) \<and>
     0 \<le> completion_rate st \<and>
     (if total st = 0 then completion_rate st = 0
      else \<bar>completion_rate st - of_nat (completed st) / of_nat (total st) * 100\<bar>
           \<le> of_nat (completed st) / of_nat (total st) * 100 / 2 ^ 51) \<and>
     (\<exists>st'. get_statistics (\<lambda>i. now) m = Inr st' \<and>
            overdue st' = length (filter (is_overdue now) (tasks m)))"
proof -
  define n where "n = length (tasks m)"
  define c where "c = length (filter (\<lambda>t. status t = COMPLETED) (tasks m))"
  define rate :: rat where
    "rate = (if n = 0 then 0 else binary64 (binary64 (of_nat c / of_nat n) * 100))"
  define st where
    "st = \<lparr>total = n, completed = c,
            pending = length (filter (\<lambda>t. status t = PENDING) (tasks m)),
            in_progress = length (filter (\<lambda>t. status t = IN_PROGRESS) (tasks m)),
            overdue = length (get_overdue_tasks clock m), completion_rate = rate\<rparr>"
  have g: "get_statistics clock m = Inr st"
    by (simp add: get_statistics_def py_truediv_def py_fmul_def bindE_def Let_def st_def
        rate_def n_def c_def)
  have od: "length (get_overdue_tasks clock m) =
      length (filter (\<lambda>i. is_overdue (clock i) (tasks m ! i)) [0..<length (tasks m)])"
    using overdue_from_length[of clock 0 "tasks m"] by (simp add: get_overdue_tasks_def)
  have q: "(0::rat) \<le> of_nat c / of_nat n" by simp
  have r0: "0 \<le> rate"
    using float_rate_error(2)[OF q] by (simp add: rate_def)
  have r1: "n \<noteq> 0 \<Longrightarrow> \<bar>rate - of_nat c / of_nat n * 100\<bar> \<le> of_nat c / of_nat n * 100 / 2 ^ 51"
    using float_rate_error(1)[OF q] by (simp add: rate_def)
  have fr: "\<exists>st'. get_statistics (\<lambda>i. now) m = Inr st' \<and>
            overdue st' = length (filter (is_overdue now) (tasks m))"
    by (simp add: get_statistics_def py_truediv_def bindE_def Let_def get_overdue_tasks_def
        overdue_from_const)
  have "get_statistics clock m = Inr st \<and>
     total st = length (tasks m) \<and>
     completed st = length (get_tasks_by_status m COMPLETED) \<and>
     pending st = length (get_tasks_by_status m PENDING) \<and>
     in_progress st = length (get_tasks_by_status m IN_PROGRESS) \<and>
     overdue st =
       length (filter (\<lambda>i. is_overdue (clock i) (tasks m ! i)) [0..<length (tasks m)]) \<and>
     completion_rate st =
       (if total st = 0 then 0
        else binary64 (binary64 (of_nat (completed st) / of_nat (total st)) * 100)) \<and>
     0 \<le> completion_rate st \<and>
     (if total st = 0 then completion_rate st = 0
      else \<bar>completion_rate st - of_nat (completed st) / of_nat (total st) * 100\<bar>
           \<le> of_nat (completed st) / of_nat (total st) * 100 / 2 ^ 51)"
    using g od r0 r1
    by (simp add: st_def get_tasks_by_status_def n_def[symmetric] c_def[symmetric] rate_def)
  then show ?thesis using fr by blast
qed

theorem get_statistics_counts_witness:
  "\<exists>st. get_statistics (\<lambda>i. mk_datetime 2024 6 1 0 0 0 0)
          \<lparr>tasks = replicate 7 (sample_task 1 ''Work'' LOW COMPLETED None) @
                   replicate 18 (sample_task 2 ''Work'' LOW PENDING None),
           next_id = JInt 3, disk = Absent\<rparr> = Inr st \<and>
        total st = 25 \<and> completed st = 7 \<and> pending st = 18 \<and> in_progress st = 0 \<and>
        overdue st = 0 \<and>
        completion_rate st = 7881299347898369 / 281474976710656 \<and>
        completion_rate st = 28 + 1 / 2 ^ 48"
proof -
  let ?m = "\<lparr>tasks = replicate 7 (sample_task 1 ''Work'' LOW COMPLETED None) @
                   replicate 18 (sample_task 2 ''Work'' LOW PENDING None),
             next_id = JInt 3, disk = Absent\<rparr>"
  let ?clock = "\<lambda>i::nat. mk_datetime 2024 6 1 0 0 0 0"
  from get_statistics_counts[of ?clock ?m "mk_datetime 2024 6 1 0 0 0 0"]
  obtain st where st: "get_statistics ?clock ?m = Inr st"
    "total st = length (tasks ?m)"
    "completed st = length (get_tasks_by_status ?m COMPLETED)"
    "pending st = length (get_tasks_by_status ?m PENDING)"
    "in_progress st = length (get_tasks_by_status ?m IN_PROGRESS)"
    "completion_rate st =
       (if total st = 0 then 0
        else binary64 (binary64 (of_nat (completed st) / of_nat (total st)) * 100))"
    "\<exists>st'. get_statistics ?clock ?m = Inr st' \<and>
            overdue st' = length (filter (is_overdue (mk_datetime 2024 6 1 0 0 0 0)) (tasks ?m))"
    by blast
  have t: "total st = 25" using st(2) by simp
  have c: "completed st = 7" using st(3) by (simp add: get_tasks_by_status_def sample_task_def)
  have p: "pending st = 18" using st(4) by (simp add: get_tasks_by_status_def sample_task_def)
  have i: "in_progress st = 0" using st(5) by (simp add: get_tasks_by_status_def sample_task_def)
  have o: "overdue st = 0" using st(1,7) by (simp add: is_overdue_def sample_task_def)
  have q: "(of_nat 7 / of_nat 25 :: rat) = 7 / 25" by simp
  have "total st \<noteq> 0" using t by simp
  then have "completion_rate st =
      binary64 (binary64 (of_nat (completed st) / of_nat (total st)) * 100)"
    using st(6) by (simp only: if_False)
  then have r: "completion_rate st = 7881299347898369 / 281474976710656"
    unfolding t c by (simp only: q binary64_quotient_example binary64_product_example)
  show ?thesis using st(1) t c p i o r by simp
qed

section \<open>Categories\<close>









lemma get_categories_example: "get_categories \<lparr>tasks = [sample_task 1 ''Work'' LOW PENDING None,
                                   sample_task 2 ''work'' HIGH PENDING None,
                                   sample_task 3 ''Home'' HIGH PENDING None],
                          next_id = JInt 4, disk = Absent\<rparr> = Inr {JStr ''Work'', JStr ''work'', JStr ''Home''}"
  by (simp add: get_categories_def sample_task_def py_eq_def)

section \<open>Decimal fields: rendering and reading\<close>

lemma zpad_2: "zpad 2 n = [digit_char (n div 10 mod 10), digit_char (n mod 10)]"
  by (simp add: numeral_2_eq_2)
lemma zpad_4:
  "zpad 4 n = [digit_char (n div 1000 mod 10), digit_char (n div 100 mod 10),
               digit_char (n div 10 mod 10), digit_char (n mod 10)]"
proof -
  have "(4::nat) = Suc (Suc (Suc (Suc 0)))" by simp
  then have "zpad 4 n = zpad (Suc (Suc (Suc (Suc 0)))) n" by (rule arg_cong)
  also have "\<dots> = [digit_char (n div 1000 mod 10), digit_char (n div 100 mod 10),
               digit_char (n div 10 mod 10), digit_char (n mod 10)]"
    by (simp add: div_mult2_eq[symmetric])
  finally show ?thesis .
qed
lemma zpad_6:
  "zpad 6 n = [digit_char (n div 100000 mod 10), digit_char (n div 10000 mod 10),
               digit_char (n div 1000 mod 10), digit_char (n div 100 mod 10),
               digit_char (n div 10 mod 10), digit_char (n mod 10)]"
proof -
  have "(6::nat) = Suc (Suc (Suc (Suc (Suc (Suc 0)))))" by simp
  then have "zpad 6 n = zpad (Suc (Suc (Suc (Suc (Suc (Suc 0)))))) n" by (rule arg_cong)
  also have "\<dots> = [digit_char (n div 100000 mod 10), digit_char (n div 10000 mod 10),
               digit_char (n div 1000 mod 10), digit_char (n div 100 mod 10),
               digit_char (n div 10 mod 10), digit_char (n mod 10)]"
    by (simp add: div_mult2_eq[symmetric])
  finally show ?thesis .
qed
lemmas zpad_eval = zpad_2 zpad_4 zpad_6 digit_char_def

lemma digit_cases: "d < 10 \<Longrightarrow> d \<in> {0, 1, 2, 3, 4, 5, 6, 7, 8, 9::nat}"
  by auto

lemma digit_char_props:
  assumes "d < 10"
  shows "is_digit (digit_char d) \<and> digit_val (digit_char d) = d"
proof -
  from assms have "d = 0 \<or> d = 1 \<or> d = 2 \<or> d = 3 \<or> d = 4 \<or> d = 5 \<or> d = 6 \<or> d = 7 \<or> d = 8 \<or> d = 9"
    by arith
  then show ?thesis
    by (elim disjE) (simp_all add: digit_char_def is_digit_def digit_val_def)
qed

lemma zpad_length: "length (zpad k n) = k"
  by (induction k arbitrary: n) auto

lemma zpad_digits: "list_all is_digit (zpad k n)"
  by (induction k arbitrary: n) (auto simp: digit_char_props)

lemma zpad_foldl:
  "foldl (\<lambda>a c. 10 * a + digit_val c) a (zpad k n) = a * 10 ^ k + n mod 10 ^ k"
proof (induction k arbitrary: n)
  case 0
  then show ?case by simp
next
  case (Suc k)
  have "foldl (\<lambda>a c. 10 * a + digit_val c) a (zpad (Suc k) n) =
        10 * (a * 10 ^ k + (n div 10) mod 10 ^ k) + n mod 10"
    by (simp add: Suc.IH digit_char_props)
  also have "\<dots> = a * 10 ^ Suc k + (10 * ((n div 10) mod 10 ^ k) + n mod 10)"
    by (simp add: algebra_simps)
  also have "10 * ((n div 10) mod 10 ^ k) + n mod 10 = n mod 10 ^ Suc k"
    by (simp add: mod_mult2_eq)
  finally show ?case .
qed

lemma read_digits_zpad:
  assumes "n < 10 ^ k"
  shows "read_digits k (zpad k n @ rest) = Some (n, rest)"
  using assms by (simp add: read_digits_def zpad_length zpad_digits digits_value_def zpad_foldl)

lemma read_digits_zpad_end:
  assumes "n < 10 ^ k"
  shows "read_digits k (zpad k n) = Some (n, [])"
  using read_digits_zpad[OF assms, of "[]"] by simp

lemma expect_hit: "expect c (c # rest) = Some rest"
  by (simp add: expect_def)


lemma valid_datetime_bounds:
  assumes "valid_datetime t"
  shows "year t < 10 ^ 4" "month t < 10 ^ 2" "day t < 10 ^ 2" "hour t < 10 ^ 2"
        "minute t < 10 ^ 2" "second t < 10 ^ 2" "microsecond t < 10 ^ 6"
  using assms
  by (auto simp: valid_datetime_def valid_date_def days_in_month_def split: if_splits)

lemma parse_iso_date_zpad:
  assumes "y < 10 ^ 4" "mo < 10 ^ 2" "d < 10 ^ 2"
  shows "parse_iso_date (zpad 4 y @ CHR ''-'' # zpad 2 mo @ CHR ''-'' # zpad 2 d @ rest) =
         Some ((y, mo, d), rest)"
  by (simp add: parse_iso_date_def read_digits_zpad[OF assms(1)] read_digits_zpad[OF assms(2)]
      read_digits_zpad[OF assms(3)] expect_hit)

lemma parse_iso_time_zpad_whole:
  assumes "h < 10 ^ 2" "mi < 10 ^ 2" "s < 10 ^ 2"
  shows "parse_iso_time (zpad 2 h @ CHR '':'' # zpad 2 mi @ CHR '':'' # zpad 2 s) =
         Some (h, mi, s, 0)"
  by (simp add: parse_iso_time_def read_digits_zpad[OF assms(1)] read_digits_zpad[OF assms(2)]
      read_digits_zpad_end[OF assms(3)] expect_hit)

lemma parse_iso_time_zpad_fraction:
  assumes "h < 10 ^ 2" "mi < 10 ^ 2" "s < 10 ^ 2" "us < 10 ^ 6"
  shows "parse_iso_time (zpad 2 h @ CHR '':'' # zpad 2 mi @ CHR '':'' # zpad 2 s @
           CHR ''.'' # zpad 6 us) = Some (h, mi, s, us)"
  by (simp add: parse_iso_time_def read_digits_zpad[OF assms(1)] read_digits_zpad[OF assms(2)]
      read_digits_zpad[OF assms(3)] read_digits_zpad_end[OF assms(4)] expect_hit)

lemma isoformat_head:
  "length (isoformat t) \<ge> 19 \<and> take 4 (isoformat t) = zpad 4 (year t)"
  by (simp add: isoformat_def zpad_length)

lemma checked_valid: "valid_datetime t \<Longrightarrow> checked_datetime t = Inr t"
  by (simp add: checked_datetime_def valid_datetime_def)

lemma fromisoformat_isoformat:
  assumes "valid_datetime t"
  shows "fromisoformat (isoformat t) = Inr t"
proof -
  note b = valid_datetime_bounds[OF assms]
  have same: "mk_datetime (year t) (month t) (day t) (hour t) (minute t) (second t)
                (microsecond t) = t"
    by (simp add: mk_datetime_def)
  have guard: "\<not> (length (isoformat t) < 7 \<or> \<not> list_all is_digit (take 4 (isoformat t)))"
    using isoformat_head[of t] by (simp add: zpad_digits)
  have start: "fromisoformat (isoformat t) =
      (case parse_iso_date (isoformat t) of
         None \<Rightarrow> Inl Unmodelled
       | Some ((y, mo, d), r) \<Rightarrow> iso_after_date y mo d r)"
    using guard by (simp only: fromisoformat_def if_False)
  show ?thesis
  proof (cases "microsecond t = 0")
    case True
    have iso: "isoformat t =
        zpad 4 (year t) @ CHR ''-'' # zpad 2 (month t) @ CHR ''-'' # zpad 2 (day t) @
        (CHR ''T'' # zpad 2 (hour t) @ CHR '':'' # zpad 2 (minute t) @ CHR '':'' # zpad 2 (second t))"
      using True by (simp add: isoformat_def)
    have "fromisoformat (isoformat t) =
          checked_datetime (mk_datetime (year t) (month t) (day t) (hour t) (minute t) (second t) 0)"
      unfolding start unfolding iso
      by (simp add: parse_iso_date_zpad[OF b(1,2,3)] parse_iso_time_zpad_whole[OF b(4,5,6)]
          iso_after_date_def iso_with_time_def)
    then show ?thesis using same True assms checked_valid[OF assms] by simp
  next
    case False
    have iso: "isoformat t =
        zpad 4 (year t) @ CHR ''-'' # zpad 2 (month t) @ CHR ''-'' # zpad 2 (day t) @
        (CHR ''T'' # zpad 2 (hour t) @ CHR '':'' # zpad 2 (minute t) @ CHR '':'' # zpad 2 (second t) @
          CHR ''.'' # zpad 6 (microsecond t))"
      using False by (simp add: isoformat_def)
    have "fromisoformat (isoformat t) =
          checked_datetime (mk_datetime (year t) (month t) (day t) (hour t) (minute t) (second t)
            (microsecond t))"
      unfolding start unfolding iso
      by (simp add: parse_iso_date_zpad[OF b(1,2,3)] parse_iso_time_zpad_fraction[OF b(4,5,6,7)]
          iso_after_date_def iso_with_time_def)
    then show ?thesis using same assms checked_valid[OF assms] by simp
  qed
qed

lemma isoformat_nonempty: "isoformat t \<noteq> []"
proof -
  have "length (isoformat t) \<ge> 19"
    by (simp add: isoformat_def zpad_length)
  then show ?thesis by auto
qed


lemma Priority_of_value: "Priority_of (JStr (priority_value p)) = Inr p"
  by (cases p) (simp_all add: Priority_of_def)

lemma Status_of_value: "Status_of (JStr (status_value s)) = Inr s"
  by (cases s) (simp_all add: Status_of_def)

lemma fromisoformat_json_isoformat:
  "valid_datetime t \<Longrightarrow> fromisoformat_json (JStr (isoformat t)) = Inr t"
  by (simp add: fromisoformat_json_def fromisoformat_isoformat)

lemma optional_field_iso:
  assumes "valid_optional d" and "map_of kvs k = Some (optional_iso d)"
  shows "optional_field (JObj kvs) k None = Inr d"
proof (cases d)
  case None
  then show ?thesis using assms(2)
    by (simp add: optional_field_def py_get_def bindE_def optional_iso_def)
next
  case (Some t)
  then have "valid_datetime t" using assms(1) by (simp add: valid_optional_def)
  then show ?thesis using assms(2) Some
    by (simp add: optional_field_def py_get_def bindE_def optional_iso_def
        isoformat_nonempty fromisoformat_json_isoformat)
qed

lemma from_dict_to_dict:
  assumes "valid_task t"
  shows "from_dict (to_dict t) now1 now2 = Inr t"
proof -
  from assms have v: "valid_datetime (created_at t)" "valid_datetime (updated_at t)"
    "valid_optional (due_date t)" "valid_optional (completed_at t)"
    by (simp_all add: valid_task_def)
  have due: "optional_field (to_dict t) ''due_date'' None = Inr (due_date t)"
    unfolding to_dict_def by (rule optional_field_iso[OF v(3)]) simp
  have com: "optional_field (to_dict t) ''completed_at'' None = Inr (completed_at t)"
    unfolding to_dict_def by (rule optional_field_iso[OF v(4)]) simp
  have get:
    "py_getitem (to_dict t) ''title'' = Inr (title t)"
    "py_get (to_dict t) ''description'' (JStr []) = Inr (description t)"
    "py_get (to_dict t) ''category'' (JStr ''General'') = Inr (category t)"
    "py_get (to_dict t) ''priority'' (JStr ''Medium'') =
       Inr (JStr (priority_value (priority t)))"
    "py_get (to_dict t) ''id'' JNull = Inr (task_id t)"
    "py_get (to_dict t) ''status'' (JStr ''Pending'') =
       Inr (JStr (status_value (status t)))"
    "py_getitem (to_dict t) ''created_at'' = Inr (JStr (isoformat (created_at t)))"
    "py_getitem (to_dict t) ''updated_at'' = Inr (JStr (isoformat (updated_at t)))"
    by (simp_all add: to_dict_def py_getitem_def py_get_def)
  show ?thesis
    unfolding from_dict_def
    by (simp add: get bindE_def Priority_of_value Status_of_value
        fromisoformat_json_isoformat[OF v(1)] fromisoformat_json_isoformat[OF v(2)]
        Task_init_def init_due_date_def due com)
qed

lemmas valid_eval =
  valid_task_def valid_optional_def valid_datetime_def valid_date_def days_in_month_def
  is_leap_def mk_datetime_def

section \<open>Round trip through the persisted form\<close>

text \<open>
  Claim C2. For every task (its timestamps being datetimes Python can hold), whatever its
  priority and status and whether or not it has a due date and a completion timestamp,
  \<^verbatim>\<open>from_dict\<close> applied to the dictionary \<^verbatim>\<open>to_dict\<close> builds does not raise and returns a
  task equal to the original in all ten fields: id, title, description, category,
  priority, status, created_at, updated_at, due_date, completed_at. The clock readings
  of the constructor that \<^verbatim>\<open>from_dict\<close> calls leave no trace.
\<close>

theorem to_dict_from_dict_roundtrip:
  assumes "valid_task t"
  shows "from_dict (to_dict t) now1 now2 = Inr t"
  using assms by (rule from_dict_to_dict)

theorem to_dict_from_dict_roundtrip_witness:
  "valid_task (sample_task 7 ''Work'' URGENT COMPLETED (Some (mk_datetime 2024 2 29 0 0 0 0))) \<and>
   from_dict (to_dict (sample_task 7 ''Work'' URGENT COMPLETED (Some (mk_datetime 2024 2 29 0 0 0 0))))
     (mk_datetime 2025 1 1 0 0 0 0) (mk_datetime 2025 1 1 0 0 0 1) =
   Inr (sample_task 7 ''Work'' URGENT COMPLETED (Some (mk_datetime 2024 2 29 0 0 0 0)))"
proof -
  have h: "valid_task (sample_task 7 ''Work'' URGENT COMPLETED (Some (mk_datetime 2024 2 29 0 0 0 0)))"
    by (simp add: sample_task_def valid_eval)
  show ?thesis
    using h to_dict_from_dict_roundtrip[OF h] by simp
qed

section \<open>Identifier assignment\<close>

lemma strptime_of_only_ValueError: "except_ValueError (strptime_of f) \<noteq> Inl e"
  by (auto simp: except_ValueError_def strptime_of_def split: option.splits prod.splits)

lemma parse_date_total: "\<exists>d. parse_date s = Inr d"
proof -
  have a: "\<exists>d. except_ValueError (strptime_of f) = Inr d" for f
    using strptime_of_only_ValueError[of f] by (cases "except_ValueError (strptime_of f)") auto
  show ?thesis
    by (simp add: parse_date_def strptime_ymd_def strptime_dmy_def a)
qed

lemma init_due_date_total: "\<exists>d. init_due_date due = Inr d"
  using parse_date_total by (simp add: init_due_date_def split: option.splits)

lemma save_tasks_keeps:
  "tasks (save_tasks m w) = tasks m" "next_id (save_tasks m w) = next_id m"
  by (cases w; simp add: save_tasks_def)+

lemma add_task_counter:
  assumes "next_id m = JInt k"
  shows "\<exists>t. add_task m ttl descr cat prio due now1 now2 w =
           Inr (save_tasks (m\<lparr>next_id := JInt (k + 1), tasks := tasks m @ [t]\<rparr>) w, t) \<and>
         task_id t = JInt k \<and> title t = ttl \<and> description t = descr \<and> category t = cat \<and>
         priority t = prio \<and> status t = PENDING \<and> created_at t = now1 \<and>
         updated_at t = now2 \<and> init_due_date due = Inr (due_date t) \<and> completed_at t = None"
proof -
  obtain d where d: "init_due_date due = Inr d" using init_due_date_total by blast
  show ?thesis
    using assms d by (simp add: add_task_def Task_init_def bindE_def Let_def)
qed


lemma remove_first_subset: "set (remove_first P xs) \<subseteq> set xs"
  by (induction xs) auto

lemma remove_first_distinct: "distinct (map f xs) \<Longrightarrow> distinct (map f (remove_first P xs))"
proof (induction xs)
  case Nil
  then show ?case by simp
next
  case (Cons x xs)
  then show ?case using remove_first_subset[of P xs] by auto
qed

lemma delete_task_tasks:
  "next_id (fst (delete_task m k w)) = next_id m \<and>
   set (tasks (fst (delete_task m k w))) \<subseteq> set (tasks m) \<and>
   (distinct (map task_id (tasks m)) \<longrightarrow> distinct (map task_id (tasks (fst (delete_task m k w)))))"
  using remove_first_subset[of "\<lambda>t. id_eq (task_id t) k" "tasks m"]
    remove_first_distinct[of task_id "tasks m" "\<lambda>t. id_eq (task_id t) k"]
  by (simp add: delete_task_def save_tasks_keeps split: option.splits)

lemma run_counter:
  assumes "next_id m = JInt k" and "1 \<le> k"
    and "\<forall>t \<in> set (tasks m). \<exists>i. task_id t = JInt i \<and> 1 \<le> i \<and> i < k"
    and "distinct (map task_id (tasks m))"
  shows "\<exists>m'. run m ops = Inr (m', map JInt [k .. k + int (length (filter is_Add ops)) - 1]) \<and>
           next_id m' = JInt (k + int (length (filter is_Add ops))) \<and>
           (\<forall>t \<in> set (tasks m'). \<exists>i. task_id t = JInt i \<and> 1 \<le> i \<and>
                                     i < k + int (length (filter is_Add ops))) \<and>
           distinct (map task_id (tasks m'))"
  using assms
proof (induction ops arbitrary: m k)
  case Nil
  then show ?case by simp
next
  case (Cons x ops)
  let ?n = "int (length (filter is_Add ops))"
  show ?case
  proof (cases x)
    case (Add ttl descr cat prio due now1 now2 w)
    from add_task_counter[OF Cons.prems(1), of ttl descr cat prio due now1 now2 w]
    obtain t where t:
      "add_task m ttl descr cat prio due now1 now2 w =
         Inr (save_tasks (m\<lparr>next_id := JInt (k + 1), tasks := tasks m @ [t]\<rparr>) w, t)"
      "task_id t = JInt k" by blast
    define m1 where "m1 = save_tasks (m\<lparr>next_id := JInt (k + 1), tasks := tasks m @ [t]\<rparr>) w"
    have n1: "next_id m1 = JInt (k + 1)" by (simp add: m1_def save_tasks_keeps)
    have tk: "tasks m1 = tasks m @ [t]" by (simp add: m1_def save_tasks_keeps)
    have b1: "\<forall>u \<in> set (tasks m1). \<exists>i. task_id u = JInt i \<and> 1 \<le> i \<and> i < k + 1"
      using Cons.prems(2,3) t(2) tk by force
    have fresh: "JInt k \<notin> task_id ` set (tasks m)"
      using Cons.prems(3) by force
    have d1: "distinct (map task_id (tasks m1))"
      using Cons.prems(4) fresh t(2) tk by simp
    have k1: "1 \<le> k + 1" using Cons.prems(2) by simp
    from Cons.IH[OF n1 k1 b1 d1] obtain m' where m':
      "run m1 ops = Inr (m', map JInt [k + 1 .. k + 1 + ?n - 1])"
      "next_id m' = JInt (k + 1 + ?n)"
      "\<forall>t \<in> set (tasks m'). \<exists>i. task_id t = JInt i \<and> 1 \<le> i \<and> i < k + 1 + ?n"
      "distinct (map task_id (tasks m'))" by blast
    have cnt: "int (length (filter is_Add (x # ops))) = ?n + 1" using Add by simp
    have up: "[k .. k + (?n + 1) - 1] = k # [k + 1 .. k + 1 + ?n - 1]"
      by (simp add: upto_rec1[of k] add.commute)
    have r: "run m (x # ops) = Inr (m', JInt k # map JInt [k + 1 .. k + 1 + ?n - 1])"
      using Add t m'(1) by (simp add: bindE_def m1_def)
    have e: "k + 1 + ?n = k + (?n + 1)" by simp
    show ?thesis
      unfolding cnt up
      using r m'(2)[unfolded e] m'(3)[unfolded e] m'(4) by (intro exI[of _ m']) simp
  next
    case (Delete j w)
    define m1 where "m1 = fst (delete_task m j w)"
    have p: "next_id m1 = JInt k" "set (tasks m1) \<subseteq> set (tasks m)"
      "distinct (map task_id (tasks m1))"
      using delete_task_tasks[of m j w] Cons.prems(1,4) by (simp_all add: m1_def)
    have b1: "\<forall>u \<in> set (tasks m1). \<exists>i. task_id u = JInt i \<and> 1 \<le> i \<and> i < k"
      using Cons.prems(3) p(2) by blast
    from Cons.IH[OF p(1) Cons.prems(2) b1 p(3)] obtain m' where m':
      "run m1 ops = Inr (m', map JInt [k .. k + ?n - 1])"
      "next_id m' = JInt (k + ?n)"
      "\<forall>t \<in> set (tasks m'). \<exists>i. task_id t = JInt i \<and> 1 \<le> i \<and> i < k + ?n"
      "distinct (map task_id (tasks m'))" by blast
    have cnt: "int (length (filter is_Add (x # ops))) = ?n" using Delete by simp
    have r: "run m (x # ops) = Inr (m', map JInt [k .. k + ?n - 1])"
      using Delete m'(1) by (simp add: bindE_def m1_def)
    show ?thesis
      unfolding cnt using r m'(2,3,4) by simp
  qed
qed

lemmas store_eval =
  add_task_def Task_init_def init_due_date_def bindE_def delete_task_def get_task_def
  save_tasks_def document_of_def empty_store_def update_task_status_def update_status_def
  Let_def

text \<open>
  Claim C3. Take any sequence of calls of \<^verbatim>\<open>add_task\<close> and \<^verbatim>\<open>delete_task\<close> on the
  store that starts empty with counter 1, with any arguments and with writes that succeed
  or fail. No call raises. The ids issued are 1, 2, ..., n
  in this order, n being the number of adds, each the value of the counter at its call,
  and the counter ends at n + 1: deletes never lower it. The ids of the tasks then in the
  store are pairwise different and are among the issued ones, hence positive integers. One
  more add returns a task whose id is the counter, n + 1, which is none of the ids issued
  before, whether or not their tasks were deleted, and leaves the counter at n + 2.
\<close>

theorem add_ids_increasing_never_reused:
  "\<exists>m m' t.
     run empty_store ops = Inr (m, map JInt [1 .. int (length (filter is_Add ops))]) \<and>
     next_id m = JInt (int (length (filter is_Add ops)) + 1) \<and>
     distinct (map task_id (tasks m)) \<and>
     set (map task_id (tasks m)) \<subseteq> set (map JInt [1 .. int (length (filter is_Add ops))]) \<and>
     add_task m ttl descr cat prio due now1 now2 w = Inr (m', t) \<and>
     task_id t = next_id m \<and>
     task_id t \<notin> set (map JInt [1 .. int (length (filter is_Add ops))]) \<and>
     next_id m' = JInt (int (length (filter is_Add ops)) + 2) \<and>
     tasks m' = tasks m @ [t]"
proof -
  let ?n = "int (length (filter is_Add ops))"
  have i: "next_id empty_store = JInt 1" "(1::int) \<le> 1"
    "\<forall>t \<in> set (tasks empty_store). \<exists>i. task_id t = JInt i \<and> 1 \<le> i \<and> i < 1"
    "distinct (map task_id (tasks empty_store))"
    by (simp_all add: empty_store_def)
  from run_counter[OF i, of ops] obtain m where m:
    "run empty_store ops = Inr (m, map JInt [1 .. ?n])"
    "next_id m = JInt (1 + ?n)"
    "\<forall>t \<in> set (tasks m). \<exists>i. task_id t = JInt i \<and> 1 \<le> i \<and> i < 1 + ?n"
    "distinct (map task_id (tasks m))"
    by auto
  from add_task_counter[OF m(2), of ttl descr cat prio due now1 now2 w] obtain t where t:
    "add_task m ttl descr cat prio due now1 now2 w =
       Inr (save_tasks (m\<lparr>next_id := JInt (1 + ?n + 1), tasks := tasks m @ [t]\<rparr>) w, t)"
    "task_id t = JInt (1 + ?n)" by blast
  have sub: "set (map task_id (tasks m)) \<subseteq> set (map JInt [1 .. ?n])"
  proof
    fix v assume "v \<in> set (map task_id (tasks m))"
    then obtain u where u: "u \<in> set (tasks m)" "v = task_id u" by auto
    with m(3) obtain j where "task_id u = JInt j" "1 \<le> j" "j < 1 + ?n" by blast
    then show "v \<in> set (map JInt [1 .. ?n])" using u(2) by simp
  qed
  have fresh: "task_id t \<notin> set (map JInt [1 .. ?n])"
    using t(2) by auto
  show ?thesis
    using m(1,2,4) sub t fresh
    by (intro exI[of _ m] exI[of _ "save_tasks (m\<lparr>next_id := JInt (1 + ?n + 1), tasks := tasks m @ [t]\<rparr>) w"]
        exI[of _ t]) (simp add: save_tasks_keeps)
qed

theorem add_ids_increasing_never_reused_witness:
  "\<exists>m. run empty_store
          [Add (JStr ''Buy milk'') JNull (JStr ''General'') MEDIUM None
             (mk_datetime 2024 1 1 9 0 0 0) (mk_datetime 2024 1 1 9 0 0 1) Written,
           Delete 1 (WriteFailed Unparsable),
           Add (JStr ''Call home'') JNull (JStr ''General'') LOW None
             (mk_datetime 2024 1 2 9 0 0 0) (mk_datetime 2024 1 2 9 0 0 1) Written]
        = Inr (m, [JInt 1, JInt 2]) \<and>
        map task_id (tasks m) = [JInt 2] \<and> next_id m = JInt 3"
  using add_ids_increasing_never_reused
    [of "[Add (JStr ''Buy milk'') JNull (JStr ''General'') MEDIUM None
             (mk_datetime 2024 1 1 9 0 0 0) (mk_datetime 2024 1 1 9 0 0 1) Written,
           Delete 1 (WriteFailed Unparsable),
           Add (JStr ''Call home'') JNull (JStr ''General'') LOW None
             (mk_datetime 2024 1 2 9 0 0 0) (mk_datetime 2024 1 2 9 0 0 1) Written]"
        JNull JNull JNull LOW None "mk_datetime 2024 1 1 9 0 0 0" "mk_datetime 2024 1 1 9 0 0 0"
        Written]
  by (simp add: store_eval)

section \<open>Loading a document without a counter\<close>

text \<open>
  Claim C9. Let the persisted document be a dictionary with a list under \<^verbatim>\<open>tasks\<close>, every
  entry of which \<^verbatim>\<open>from_dict\<close> accepts, and without the key \<^verbatim>\<open>next_id\<close>. Then loading
  succeeds without a report, the store holds the loaded tasks and its counter is 1,
  whatever ids the tasks carry. The next add therefore issues id 1 and sets the counter
  to 2; if a loaded task already has id 1, the store then holds two tasks with that id.
\<close>

theorem load_without_next_id_restarts_at_one:
  assumes "map_of kvs ''tasks'' = Some (JArr items)"
    and "map_of kvs ''next_id'' = None"
    and "map_raise (\<lambda>task_data. from_dict task_data now now) items = Inr ts"
  shows "\<exists>m m' t.
           TaskManager_init (Document (JObj kvs)) now = Inr (m, None) \<and>
           tasks m = ts \<and> next_id m = JInt 1 \<and>
           add_task m ttl descr cat prio due now1 now2 w = Inr (m', t) \<and>
           task_id t = JInt 1 \<and> tasks m' = ts @ [t] \<and> next_id m' = JInt 2 \<and>
           (JInt 1 \<in> set (map task_id ts) \<longrightarrow> \<not> distinct (map task_id (tasks m')))"
proof -
  define m where "m = \<lparr>tasks = ts, next_id = JInt 1, disk = Document (JObj kvs)\<rparr>"
  have l: "TaskManager_init (Document (JObj kvs)) now = Inr (m, None)"
    using assms
    by (simp add: TaskManager_init_def load_tasks_def load_body_def py_getitem_def py_get_def
        bindE_def m_def)
  have n: "next_id m = JInt 1" by (simp add: m_def)
  from add_task_counter[OF n, of ttl descr cat prio due now1 now2 w] obtain t where t:
    "add_task m ttl descr cat prio due now1 now2 w =
       Inr (save_tasks (m\<lparr>next_id := JInt (1 + 1), tasks := tasks m @ [t]\<rparr>) w, t)"
    "task_id t = JInt 1" by blast
  show ?thesis
    using l t
    by (intro exI[of _ m] exI[of _ "save_tasks (m\<lparr>next_id := JInt (1 + 1), tasks := tasks m @ [t]\<rparr>) w"]
        exI[of _ t]) (simp add: save_tasks_keeps m_def)
qed


theorem load_without_next_id_restarts_at_one_witness:
  "\<exists>m m' t.
     TaskManager_init
       (Document (JObj [(''tasks'', JArr [to_dict (sample_task 1 ''Work'' HIGH PENDING None)])]))
       (mk_datetime 2024 5 1 8 0 0 0) = Inr (m, None) \<and>
     tasks m = [sample_task 1 ''Work'' HIGH PENDING None] \<and> next_id m = JInt 1 \<and>
     add_task m (JStr ''Call home'') JNull (JStr ''General'') LOW None
       (mk_datetime 2024 5 1 8 0 0 1) (mk_datetime 2024 5 1 8 0 0 2) Written = Inr (m', t) \<and>
     map task_id (tasks m') = [JInt 1, JInt 1] \<and> \<not> distinct (map task_id (tasks m'))"
proof -
  let ?T = "sample_task 1 ''Work'' HIGH PENDING None"
  let ?now = "mk_datetime 2024 5 1 8 0 0 0"
  have v: "valid_task ?T" by (simp add: sample_task_def valid_eval)
  have h1: "map_of [(''tasks'', JArr [to_dict ?T])] ''tasks'' = Some (JArr [to_dict ?T])"
    by simp
  have h2: "map_of [(''tasks'', JArr [to_dict ?T])] ''next_id'' = None"
    by simp
  have h3: "map_raise (\<lambda>task_data. from_dict task_data ?now ?now) [to_dict ?T] = Inr [?T]"
    by (simp add: from_dict_to_dict[OF v] bindE_def)
  have i: "task_id ?T = JInt 1" by (simp add: sample_task_def)
  from load_without_next_id_restarts_at_one[OF h1 h2 h3,
      of "JStr ''Call home''" JNull "JStr ''General''" LOW None
         "mk_datetime 2024 5 1 8 0 0 1" "mk_datetime 2024 5 1 8 0 0 2" Written]
  obtain m m' t where r:
    "TaskManager_init (Document (JObj [(''tasks'', JArr [to_dict ?T])])) ?now = Inr (m, None)"
    "tasks m = [?T]" "next_id m = JInt 1"
    "add_task m (JStr ''Call home'') JNull (JStr ''General'') LOW None
       (mk_datetime 2024 5 1 8 0 0 1) (mk_datetime 2024 5 1 8 0 0 2) Written = Inr (m', t)"
    "task_id t = JInt 1" "tasks m' = [?T] @ [t]"
    by blast
  have "map task_id (tasks m') = [JInt 1, JInt 1]" using r(5,6) i by simp
  then show ?thesis using r(1,2,3,4) by (intro exI[of _ m] exI[of _ m'] exI[of _ t]) simp
qed

section \<open>Parsing the due date\<close>

lemma first_match_Some: "first_match k xs = Some y \<Longrightarrow> \<exists>x \<in> set xs. k x = Some y"
  by (induction xs) (auto split: option.splits)

lemma expect_plain_Some: "expect_plain c s = Some r \<Longrightarrow> s = Plain c # r"
  by (cases s) (auto simp: expect_plain_def split: if_splits)

lemma field_not_sep:
  "field_uchar u \<Longrightarrow> u \<noteq> Plain CHR ''-'' \<and> u \<noteq> Plain CHR ''/''"
  by (cases u) (auto simp: field_uchar_def is_digit_def split: if_splits)

lemma in_range_Plain: "in_range lo hi u \<Longrightarrow> \<exists>c. u = Plain c \<and> lo \<le> c \<and> c \<le> hi"
  by (cases u) auto

lemma range_field:
  assumes "in_range lo hi u" and "CHR ''0'' \<le> lo" and "hi \<le> CHR ''9''"
  shows "field_uchar u"
proof -
  from in_range_Plain[OF assms(1)] obtain c where c: "u = Plain c" "lo \<le> c" "c \<le> hi" by blast
  then have "is_digit c" using assms(2,3) by (auto simp: is_digit_def)
  then show ?thesis by (simp add: c field_uchar_def)
qed

lemma digit_literal_field:
  "field_uchar (Plain CHR ''0'')" "field_uchar (Plain CHR ''1'')" "field_uchar (Plain CHR ''3'')"
  "field_uchar (Plain CHR '' '')"
  by (simp_all add: field_uchar_def is_digit_def)

lemma udigit_field: "udigit u = Some v \<Longrightarrow> field_uchar u"
  by (simp add: field_uchar_def)

lemma year_field_prefix:
  assumes "year_field s = Some (v, r)"
  shows "\<exists>p. s = p @ r \<and> list_all field_uchar p"
proof -
  from assms obtain a b c d where s: "s = a # b # c # d # r"
    and dg: "udigit a \<noteq> None" "udigit b \<noteq> None" "udigit c \<noteq> None" "udigit d \<noteq> None"
    by (auto simp: year_field_def bind_eq_Some_conv split: list.splits)
  have "s = [a, b, c, d] @ r \<and> list_all field_uchar [a, b, c, d]"
    using s dg by (simp add: field_uchar_def)
  then show ?thesis by blast
qed

lemma one_char_shape: "field_uchar a \<Longrightarrow> \<exists>p. a # r = p @ r \<and> list_all field_uchar p"
  by (rule exI[of _ "[a]"]) simp

lemma two_char_shape:
  "field_uchar a \<Longrightarrow> field_uchar b \<Longrightarrow> \<exists>p. a # b # r = p @ r \<and> list_all field_uchar p"
  by (rule exI[of _ "[a, b]"]) simp

lemma field_one_prefix:
  assumes "(v, r) \<in> set (field_one a r')"
  shows "\<exists>p. a # r' = p @ r \<and> list_all field_uchar p"
proof -
  from assms have i: "in_range CHR ''1'' CHR ''9'' a" and r: "r = r'"
    by (auto simp: field_one_def split: if_splits)
  have "field_uchar a" by (rule range_field[OF i]) simp_all
  then show ?thesis unfolding r by (rule one_char_shape)
qed

lemma month_two_prefix:
  assumes "(v, r) \<in> set (month_two a b r')"
  shows "\<exists>p. a # b # r' = p @ r \<and> list_all field_uchar p"
proof -
  from assms have r: "r = r'" by (auto simp: month_two_def split: if_splits)
  from assms have
    "(a = Plain CHR ''1'' \<and> in_range CHR ''0'' CHR ''2'' b) \<or>
     (a = Plain CHR ''0'' \<and> in_range CHR ''1'' CHR ''9'' b)"
    by (auto simp: month_two_def split: if_splits)
  then have "field_uchar a \<and> field_uchar b"
    by (auto intro: range_field simp: digit_literal_field)
  then show ?thesis unfolding r by (auto intro: two_char_shape)
qed

lemma day_teens_in:
  assumes "(v, r) \<in> set (day_teens a b r')"
  shows "r = r' \<and> in_range CHR ''1'' CHR ''2'' a \<and> field_uchar b"
  using assms
  by (cases "udigit b") (auto simp: day_teens_def field_uchar_def split: if_splits)

lemma day_two_prefix:
  assumes "(v, r) \<in> set (day_two a b r')"
  shows "\<exists>p. a # b # r' = p @ r \<and> list_all field_uchar p"
proof -
  from assms have
    "(r = r' \<and> a = Plain CHR ''3'' \<and> in_range CHR ''0'' CHR ''1'' b) \<or>
     (r = r' \<and> in_range CHR ''1'' CHR ''2'' a \<and> field_uchar b) \<or>
     (r = r' \<and> a = Plain CHR ''0'' \<and> in_range CHR ''1'' CHR ''9'' b)"
    by (auto simp: day_two_def split: if_splits dest: day_teens_in)
  then have "r = r' \<and> field_uchar a \<and> field_uchar b"
    by (auto intro: range_field simp: digit_literal_field)
  then show ?thesis by (auto intro: two_char_shape)
qed

lemma day_blank_prefix:
  assumes "(v, r) \<in> set (day_blank a b r')"
  shows "\<exists>p. a # b # r' = p @ r \<and> list_all field_uchar p"
proof -
  from assms have r: "r = r'" and a: "a = Plain CHR '' ''"
    and i: "in_range CHR ''1'' CHR ''9'' b"
    by (auto simp: day_blank_def split: if_splits)
  have "field_uchar b" by (rule range_field[OF i]) simp_all
  then show ?thesis unfolding r a by (auto intro: two_char_shape simp: digit_literal_field)
qed

lemma month_alts_prefix:
  assumes "(v, r) \<in> set (month_alts s)"
  shows "\<exists>p. s = p @ r \<and> list_all field_uchar p"
proof (cases s)
  case Nil
  then show ?thesis using assms by (simp add: month_alts_def)
next
  case (Cons a s')
  show ?thesis
  proof (cases s')
    case Nil
    then show ?thesis using assms Cons field_one_prefix[of v r a "[]"]
      by (simp add: month_alts_def)
  next
    case (Cons b r')
    then show ?thesis
      using assms \<open>s = a # s'\<close> field_one_prefix[of v r a "b # r'"] month_two_prefix[of v r a b r']
      by (auto simp: month_alts_def)
  qed
qed

lemma day_alts_prefix:
  assumes "(v, r) \<in> set (day_alts s)"
  shows "\<exists>p. s = p @ r \<and> list_all field_uchar p"
proof (cases s)
  case Nil
  then show ?thesis using assms by (simp add: day_alts_def)
next
  case (Cons a s')
  show ?thesis
  proof (cases s')
    case Nil
    then show ?thesis using assms Cons field_one_prefix[of v r a "[]"]
      by (simp add: day_alts_def)
  next
    case (Cons b r')
    then show ?thesis
      using assms \<open>s = a # s'\<close> field_one_prefix[of v r a "b # r'"] day_two_prefix[of v r a b r']
        day_blank_prefix[of v r a b r']
      by (auto simp: day_alts_def)
  qed
qed


lemma fields_no_sep:
  "list_all field_uchar p \<Longrightarrow> Plain CHR ''-'' \<notin> set p \<and> Plain CHR ''/'' \<notin> set p"
  using field_not_sep by (auto simp: list_all_iff)

lemma match_ymd_dash:
  assumes "match_ymd s = Some x"
  shows "Plain CHR ''-'' \<in> set s"
proof -
  from assms obtain y r1 r2 where a: "year_field s = Some (y, r1)"
    and b: "expect_plain CHR ''-'' r1 = Some r2"
    by (auto simp: match_ymd_def bind_eq_Some_conv)
  from year_field_prefix[OF a] obtain p where "s = p @ r1" by blast
  moreover from expect_plain_Some[OF b] have "r1 = Plain CHR ''-'' # r2" .
  ultimately show ?thesis by simp
qed

lemma match_dmy_shape:
  assumes "match_dmy s = Some (v, rest)"
  shows "\<exists>p. s = p @ rest \<and> Plain CHR ''-'' \<notin> set p \<and> Plain CHR ''/'' \<in> set p"
proof -
  from first_match_Some[OF assms[unfolded match_dmy_def]]
  obtain d r1 where d: "(d, r1) \<in> set (day_alts s)"
    and k1: "Option.bind (expect_plain CHR ''/'' r1) (\<lambda>r2.
         first_match (\<lambda>(mo, r3).
           Option.bind (expect_plain CHR ''/'' r3) (\<lambda>r4.
           Option.bind (year_field r4) (\<lambda>(y, r5). Some ((y, mo, d), r5))))
           (month_alts r2)) = Some (v, rest)"
    by auto
  from k1 obtain r2 where e1: "expect_plain CHR ''/'' r1 = Some r2"
    and k2: "first_match (\<lambda>(mo, r3).
           Option.bind (expect_plain CHR ''/'' r3) (\<lambda>r4.
           Option.bind (year_field r4) (\<lambda>(y, r5). Some ((y, mo, d), r5))))
           (month_alts r2) = Some (v, rest)"
    by (auto simp: bind_eq_Some_conv)
  from first_match_Some[OF k2]
  obtain mo r3 where m: "(mo, r3) \<in> set (month_alts r2)"
    and k3: "Option.bind (expect_plain CHR ''/'' r3) (\<lambda>r4.
           Option.bind (year_field r4) (\<lambda>(y, r5). Some ((y, mo, d), r5))) = Some (v, rest)"
    by auto
  from k3 obtain r4 y where e2: "expect_plain CHR ''/'' r3 = Some r4"
    and rd: "year_field r4 = Some (y, rest)"
    by (auto simp: bind_eq_Some_conv)
  from day_alts_prefix[OF d] obtain p1 where p1: "s = p1 @ r1" "list_all field_uchar p1" by blast
  from month_alts_prefix[OF m] obtain p2 where p2: "r2 = p2 @ r3" "list_all field_uchar p2" by blast
  from year_field_prefix[OF rd] obtain p3 where p3: "r4 = p3 @ rest" "list_all field_uchar p3" by blast
  have s: "s = (p1 @ Plain CHR ''/'' # p2 @ Plain CHR ''/'' # p3) @ rest"
    using p1(1) p2(1) p3(1) expect_plain_Some[OF e1] expect_plain_Some[OF e2] by simp
  have nd: "Plain CHR ''-'' \<notin> set (p1 @ Plain CHR ''/'' # p2 @ Plain CHR ''/'' # p3)"
    using fields_no_sep[OF p1(2)] fields_no_sep[OF p2(2)] fields_no_sep[OF p3(2)] by simp
  have sl: "Plain CHR ''/'' \<in> set (p1 @ Plain CHR ''/'' # p2 @ Plain CHR ''/'' # p3)" by simp
  show ?thesis using s nd sl by blast
qed

lemma strptime_ymd_needs_dash:
  "Plain CHR ''-'' \<notin> set s \<Longrightarrow> strptime_ymd s = Inl ValueError"
  using match_ymd_dash[of s]
  by (cases "match_ymd s") (auto simp: strptime_ymd_def strptime_of_def)

lemma strptime_dmy_Inr:
  assumes "strptime_dmy s = Inr d"
  shows "Plain CHR ''-'' \<notin> set s \<and> Plain CHR ''/'' \<in> set s"
proof -
  from assms obtain v where "match_dmy s = Some (v, [])"
    by (auto simp: strptime_dmy_def strptime_of_def split: option.splits prod.splits if_splits)
  from match_dmy_shape[OF this] show ?thesis by auto
qed

lemma strptime_error: "strptime_of f = Inl e \<Longrightarrow> e = ValueError"
  by (auto simp: strptime_of_def split: option.splits prod.splits if_splits)

lemma parse_date_as_specified:
  assumes "s \<noteq> []"
  shows "parse_date s = Inr (ParseDate_spec (Some s))"
proof (cases "strptime_ymd s")
  case (Inr d)
  then have "Plain CHR ''-'' \<in> set s" using strptime_ymd_needs_dash[of s] by auto
  then show ?thesis using Inr assms
    by (simp add: parse_date_def ParseDate_spec_def except_ValueError_def)
next
  case (Inl e)
  then have e: "e = ValueError" using strptime_error by (simp add: strptime_ymd_def)
  show ?thesis
  proof (cases "strptime_dmy s")
    case (Inr d)
    with strptime_dmy_Inr have "Plain CHR ''-'' \<notin> set s" "Plain CHR ''/'' \<in> set s" by auto
    then show ?thesis using Inr Inl assms
      by (simp add: parse_date_def ParseDate_spec_def except_ValueError_def)
  next
    case Inl2: (Inl e2)
    then have "e2 = ValueError" using strptime_error by (simp add: strptime_dmy_def)
    then show ?thesis using Inl Inl2 e assms
      by (simp add: parse_date_def ParseDate_spec_def except_ValueError_def)
  qed
qed

lemmas date_eval =
  parse_date_def except_ValueError_def strptime_ymd_def strptime_dmy_def strptime_of_def
  valid_date_def days_in_month_def is_leap_def match_ymd_def match_dmy_def year_field_def
  expect_plain_def day_alts_def day_two_def day_teens_def day_blank_def field_one_def
  month_alts_def month_two_def digit_val_def is_digit_def init_due_date_def plain_def

lemma parse_date_other_script:
  "parse_date [Digit 1634 2, Digit 1632 0, Digit 1634 2, Digit 1636 4, Plain CHR ''-'',
               Plain CHR ''0'', Plain CHR ''3'', Plain CHR ''-'', Plain CHR ''1'', Digit 1637 5] =
   Inr (Some (mk_datetime 2024 3 15 0 0 0 0))"
  by (simp add: date_eval)

text \<open>
  Claim C6. For every text, the due date that the constructor computes is what the
  specification's ParseDate gives: the date of the form YYYY-MM-DD if the text has that
  form, else the date of the form DD/MM/YYYY if it has that one, else none; and none for
  no text and for the empty text. No exception leaves the computation. (The code looks
  for a hyphen or a slash and then tries one form only; a text with a hyphen never has the
  second form, and one without never has the first.) In particular "2024-03-15" and
  "15/03/2024" give the same date, midnight of 15 March 2024, and "not-a-date" gives none.
\<close>

theorem parse_date_two_forms:
  "init_due_date due = Inr (ParseDate_spec due) \<and>
   init_due_date None = Inr None \<and>
   init_due_date (Some []) = Inr None \<and>
   init_due_date (Some (plain ''2024-03-15'')) = Inr (Some (mk_datetime 2024 3 15 0 0 0 0)) \<and>
   init_due_date (Some (plain ''15/03/2024'')) = Inr (Some (mk_datetime 2024 3 15 0 0 0 0)) \<and>
   init_due_date (Some (plain ''not-a-date'')) = Inr None"
proof -
  have g: "init_due_date due = Inr (ParseDate_spec due)"
  proof (cases due)
    case None
    then show ?thesis by (simp add: init_due_date_def ParseDate_spec_def)
  next
    case (Some s)
    show ?thesis
    proof (cases "s = []")
      case True
      then show ?thesis using Some by (simp add: init_due_date_def ParseDate_spec_def)
    next
      case False
      then show ?thesis using Some parse_date_as_specified[OF False]
        by (simp add: init_due_date_def)
    qed
  qed
  have e1: "init_due_date (Some (plain ''2024-03-15'')) =
            Inr (Some (mk_datetime 2024 3 15 0 0 0 0))"
    by (simp add: date_eval)
  have e2: "init_due_date (Some (plain ''15/03/2024'')) =
            Inr (Some (mk_datetime 2024 3 15 0 0 0 0))"
    by (simp add: date_eval)
  have e3: "init_due_date (Some (plain ''not-a-date'')) = Inr None"
    by (simp add: date_eval)
  show ?thesis using g e1 e2 e3 by (simp add: init_due_date_def)
qed

section \<open>Order of the full listing\<close>

lemma lex_le:
  fixes a c :: "'a::linorder" and b d :: "'b::linorder"
  shows "(a, b) \<le> (c, d) \<longleftrightarrow> a < c \<or> (a = c \<and> \<not> d < b)"
  by (auto simp: less_eq_prod_def)

lemma lex_le_mono:
  fixes a c :: "'a::linorder" and b d :: "'b::linorder"
  shows "a \<le> c \<Longrightarrow> b \<le> d \<Longrightarrow> (a, b) \<le> (c, d)"
  by (auto simp: less_eq_prod_def)

lemma listing_key_le:
  "listing_key a \<le> listing_key b \<longleftrightarrow>
     priority_value (priority a) < priority_value (priority b) \<or>
     (priority_value (priority a) = priority_value (priority b) \<and>
      \<not> dt_less (due_or_max b) (due_or_max a))"
  unfolding listing_key_def dt_less_def by (rule lex_le)

lemma label_order:
  "priority_value HIGH < priority_value LOW"
  "priority_value LOW < priority_value MEDIUM"
  "priority_value MEDIUM < priority_value URGENT"
  by simp_all

lemma days_in_month_le: "days_in_month y m \<le> 31"
  by (simp add: days_in_month_def)

lemma valid_le_max:
  assumes "valid_datetime d"
  shows "dt_tuple d \<le> dt_tuple datetime_max"
proof -
  have "day d \<le> 31" using assms days_in_month_le[of "year d" "month d"]
    by (simp add: valid_datetime_def valid_date_def)
  moreover have "year d \<le> 9999" "month d \<le> 12" "hour d \<le> 23" "minute d \<le> 59"
    "second d \<le> 59" "microsecond d \<le> 999999"
    using assms by (simp_all add: valid_datetime_def valid_date_def)
  ultimately show ?thesis
    unfolding dt_tuple_def datetime_max_def mk_datetime_def
    by (simp only: datetime.simps) (intro lex_le_mono; assumption)
qed

lemma dt_tuple_inj: "dt_tuple a = dt_tuple b \<Longrightarrow> a = b"
  by (cases a, cases b) (simp add: dt_tuple_def)

lemma key_le_spec_order:
  assumes "listing_key a \<le> listing_key b"
    and "valid_optional (due_date b)" and "due_date b \<noteq> Some datetime_max"
  shows "listing_order_spec a b"
proof (cases "priority_value (priority a) < priority_value (priority b)")
  case True
  then show ?thesis by (simp add: listing_order_spec_def)
next
  case False
  with assms(1) have eq: "priority_value (priority a) = priority_value (priority b)"
    and le: "\<not> dt_less (due_or_max b) (due_or_max a)"
    by (auto simp: listing_key_le)
  have "due_absent_last (due_date a) (due_date b)"
  proof (cases "due_date b")
    case None
    then show ?thesis by (cases "due_date a") simp_all
  next
    case (Some y)
    then have vy: "valid_datetime y" and ny: "y \<noteq> datetime_max"
      using assms(2,3) by (simp_all add: valid_optional_def)
    show ?thesis
    proof (cases "due_date a")
      case None
      then have "\<not> dt_tuple y < dt_tuple datetime_max"
        using le Some by (simp add: due_or_max_def dt_less_def)
      with valid_le_max[OF vy] have "dt_tuple y = dt_tuple datetime_max" by simp
      then have "y = datetime_max" by (rule dt_tuple_inj)
      with ny show ?thesis by simp
    next
      case Some': (Some x)
      then show ?thesis using le Some by (simp add: due_or_max_def)
    qed
  qed
  then show ?thesis using eq by (simp add: listing_order_spec_def)
qed


lemma sorted_spec_order:
  assumes "\<forall>t \<in> set (tasks m). valid_optional (due_date t) \<and> due_date t \<noteq> Some datetime_max"
  shows "sorted_wrt listing_order_spec (sorted_tasks m)"
proof -
  have "sorted (map listing_key (sorted_tasks m))"
    unfolding sorted_tasks_def by (rule sorted_sort_key)
  then have k: "sorted_wrt (\<lambda>a b. listing_key a \<le> listing_key b) (sorted_tasks m)"
    by (simp only: sorted_map)
  show ?thesis
  proof (rule sorted_wrt_mono_rel[OF _ k])
    fix a b
    assume "b \<in> set (sorted_tasks m)" and le: "listing_key a \<le> listing_key b"
    then have "b \<in> set (tasks m)" by (simp add: sorted_tasks_def)
    with assms have "valid_optional (due_date b)" "due_date b \<noteq> Some datetime_max" by auto
    with le show "listing_order_spec a b" by (rule key_le_spec_order)
  qed
qed

lemmas listing_eval =
  sorted_tasks_def listing_key_le sample_task_def due_or_max_def dt_less_def dt_tuple_def
  datetime_max_def mk_datetime_def less_prod_def

text \<open>
  Claim C7, as amended. For every store, the full listing is a rearrangement of the tasks
  that is ascending in the key (label of the priority, due date or else the latest
  datetime there is), and tasks with equal keys keep the order they have in the store.
  One key is at most another exactly when its label is smaller as a string, compared
  character by character, or the labels are equal and its date is not later. So "High"
  sorts before "Low", "Low" before "Medium" and "Medium" before "Urgent", which is not the
  order of severity; and within one label the tasks are ascending by due date, a task
  without due date standing as if it were due at 9999-12-31T23:59:59.999999. If no task
  is due at exactly that moment, this is the order the specification describes: ascending
  by label, then by due date, tasks without due date last.
\<close>

theorem listing_sorted_by_label_then_due:
  "mset (sorted_tasks m) = mset (tasks m) \<and>
   sorted (map listing_key (sorted_tasks m)) \<and>
   filter (\<lambda>t. listing_key t = k) (sorted_tasks m) = filter (\<lambda>t. listing_key t = k) (tasks m) \<and>
   (listing_key a \<le> listing_key b \<longleftrightarrow>
      priority_value (priority a) < priority_value (priority b) \<or>
      (priority_value (priority a) = priority_value (priority b) \<and>
       \<not> dt_less (due_or_max b) (due_or_max a))) \<and>
   priority_value HIGH < priority_value LOW \<and>
   priority_value LOW < priority_value MEDIUM \<and>
   priority_value MEDIUM < priority_value URGENT \<and>
   ((\<forall>t \<in> set (tasks m). valid_optional (due_date t) \<and> due_date t \<noteq> Some datetime_max)
      \<longrightarrow> sorted_wrt listing_order_spec (sorted_tasks m))"
proof -
  have 1: "mset (sorted_tasks m) = mset (tasks m)" by (simp add: sorted_tasks_def)
  have 2: "sorted (map listing_key (sorted_tasks m))"
    unfolding sorted_tasks_def by (rule sorted_sort_key)
  have 3: "filter (\<lambda>t. listing_key t = k) (sorted_tasks m) =
           filter (\<lambda>t. listing_key t = k) (tasks m)"
    unfolding sorted_tasks_def by (rule sort_key_stable)
  show ?thesis
    using 1 2 3 listing_key_le[of a b] label_order sorted_spec_order[of m] by blast
qed

theorem listing_sorted_by_label_then_due_witness:
  "sorted_tasks \<lparr>tasks = [sample_task 1 ''Work'' URGENT PENDING None,
                           sample_task 2 ''Work'' LOW PENDING None,
                           sample_task 3 ''Work'' LOW PENDING (Some (mk_datetime 2024 3 15 0 0 0 0)),
                           sample_task 4 ''Work'' HIGH PENDING None],
                  next_id = JInt 5, disk = Absent\<rparr> =
     [sample_task 4 ''Work'' HIGH PENDING None,
      sample_task 3 ''Work'' LOW PENDING (Some (mk_datetime 2024 3 15 0 0 0 0)),
      sample_task 2 ''Work'' LOW PENDING None,
      sample_task 1 ''Work'' URGENT PENDING None] \<and>
   sorted_wrt listing_order_spec
     (sorted_tasks \<lparr>tasks = [sample_task 1 ''Work'' URGENT PENDING None,
                           sample_task 2 ''Work'' LOW PENDING None,
                           sample_task 3 ''Work'' LOW PENDING (Some (mk_datetime 2024 3 15 0 0 0 0)),
                           sample_task 4 ''Work'' HIGH PENDING None],
                  next_id = JInt 5, disk = Absent\<rparr>)"
proof -
  let ?m = "\<lparr>tasks = [sample_task 1 ''Work'' URGENT PENDING None,
                      sample_task 2 ''Work'' LOW PENDING None,
                      sample_task 3 ''Work'' LOW PENDING (Some (mk_datetime 2024 3 15 0 0 0 0)),
                      sample_task 4 ''Work'' HIGH PENDING None],
             next_id = JInt 5, disk = Absent\<rparr>"
  have h: "\<forall>t \<in> set (tasks ?m). valid_optional (due_date t) \<and> due_date t \<noteq> Some datetime_max"
    by (simp add: sample_task_def valid_eval datetime_max_def)
  have s: "sorted_wrt listing_order_spec (sorted_tasks ?m)"
    using listing_sorted_by_label_then_due[of ?m] h by blast
  have e: "sorted_tasks ?m =
     [sample_task 4 ''Work'' HIGH PENDING None,
      sample_task 3 ''Work'' LOW PENDING (Some (mk_datetime 2024 3 15 0 0 0 0)),
      sample_task 2 ''Work'' LOW PENDING None,
      sample_task 1 ''Work'' URGENT PENDING None]"
    by (simp add: listing_eval)
  show ?thesis using s e by simp
qed

text \<open>
  The claim as the specification states it, with tasks without due date last, fails on a
  store that holds a task without due date followed by a task of the same priority due at
  the latest datetime: their keys are equal, the sort keeps their order, and the task
  without due date is listed first.
\<close>

theorem listing_absent_before_latest_due:
  "sorted_tasks \<lparr>tasks = [sample_task 1 ''Work'' MEDIUM PENDING None,
                           sample_task 2 ''Work'' MEDIUM PENDING (Some datetime_max)],
                  next_id = JInt 3, disk = Absent\<rparr> =
     [sample_task 1 ''Work'' MEDIUM PENDING None,
      sample_task 2 ''Work'' MEDIUM PENDING (Some datetime_max)] \<and>
   \<not> sorted_wrt listing_order_spec
     (sorted_tasks \<lparr>tasks = [sample_task 1 ''Work'' MEDIUM PENDING None,
                             sample_task 2 ''Work'' MEDIUM PENDING (Some datetime_max)],
                    next_id = JInt 3, disk = Absent\<rparr>)"
proof -
  have e: "sorted_tasks \<lparr>tasks = [sample_task 1 ''Work'' MEDIUM PENDING None,
                           sample_task 2 ''Work'' MEDIUM PENDING (Some datetime_max)],
                  next_id = JInt 3, disk = Absent\<rparr> =
     [sample_task 1 ''Work'' MEDIUM PENDING None,
      sample_task 2 ''Work'' MEDIUM PENDING (Some datetime_max)]"
    by (simp add: listing_eval)
  have n: "\<not> listing_order_spec (sample_task 1 ''Work'' MEDIUM PENDING None)
             (sample_task 2 ''Work'' MEDIUM PENDING (Some datetime_max))"
    by (simp add: listing_order_spec_def sample_task_def)
  show ?thesis unfolding e using n by simp
qed

section \<open>Loading malformed documents\<close>

lemma load_caught_fallback:
  assumes "load_body m now = Inl e" and "caught_by_load e"
  shows "load_tasks m now = Inr (m\<lparr>tasks := [], next_id := JInt 1\<rparr>, Some e)"
  using assms by (simp add: load_tasks_def)

lemma load_uncaught_raises:
  assumes "load_body m now = Inl e" and "\<not> caught_by_load e"
  shows "load_tasks m now = Inl e"
  using assms by (simp add: load_tasks_def)

lemmas load_eval =
  TaskManager_init_def load_tasks_def load_body_def caught_by_load_def py_getitem_def
  py_get_def bindE_def from_dict_def Priority_of_def Status_of_def Task_init_def
  init_due_date_def fromisoformat_json_def optional_field_def

lemma load_recovers_examples:
  "TaskManager_init Absent now = Inr (\<lparr>tasks = [], next_id = JInt 1, disk = Absent\<rparr>, None)"
  "TaskManager_init Unparsable now =
     Inr (\<lparr>tasks = [], next_id = JInt 1, disk = Unparsable\<rparr>, Some JSONDecodeError)"
  "TaskManager_init (Document (JObj [(''next_id'', JInt 4)])) now =
     Inr (\<lparr>tasks = [], next_id = JInt 1, disk = Document (JObj [(''next_id'', JInt 4)])\<rparr>,
          Some KeyError)"
  "TaskManager_init (Document (JObj [(''tasks'', JArr [JObj [(''id'', JInt 1)]])])) now =
     Inr (\<lparr>tasks = [], next_id = JInt 1,
           disk = Document (JObj [(''tasks'', JArr [JObj [(''id'', JInt 1)]])])\<rparr>,
          Some KeyError)"
  by (simp_all add: load_eval)

text \<open>
  Claim C1 says that loading any malformed document reports the condition and yields the
  empty store with counter 1, and that no exception reaches the caller. The code does so
  for a file that is not JSON and for a missing key (\<^verbatim>\<open>JSONDecodeError\<close>, \<^verbatim>\<open>KeyError\<close>), the
  exceptions its handler names. It does not for the other malformed documents of the
  claim: a priority or status label that is no member of the enumeration and a timestamp
  that is no ISO text raise \<^verbatim>\<open>ValueError\<close>, a document whose top level is a list or whose
  \<^verbatim>\<open>tasks\<close> is a number raises \<^verbatim>\<open>TypeError\<close>, bytes that are not UTF-8 raise
  \<^verbatim>\<open>UnicodeDecodeError\<close>; the handler catches none of these, and they leave
  \<^verbatim>\<open>load_tasks\<close> and the constructor of the store.
\<close>

theorem load_malformed_values_raise:
  "TaskManager_init
     (Document (JObj [(''tasks'', JArr [JObj [(''id'', JInt 1), (''title'', JStr ''Buy milk''),
                                             (''priority'', JStr ''Critical''),
                                             (''status'', JStr ''Pending''),
                                             (''created_at'', JStr ''2024-01-02T03:04:05''),
                                             (''updated_at'', JStr ''2024-01-02T03:04:05'')]]),
                      (''next_id'', JInt 2)]))
     (mk_datetime 2024 6 1 0 0 0 0) = Inl ValueError \<and>
   TaskManager_init
     (Document (JObj [(''tasks'', JArr [JObj [(''id'', JInt 1), (''title'', JStr ''Buy milk''),
                                             (''priority'', JStr ''High''),
                                             (''status'', JStr ''Done''),
                                             (''created_at'', JStr ''2024-01-02T03:04:05''),
                                             (''updated_at'', JStr ''2024-01-02T03:04:05'')]]),
                      (''next_id'', JInt 2)]))
     (mk_datetime 2024 6 1 0 0 0 0) = Inl ValueError \<and>
   TaskManager_init
     (Document (JObj [(''tasks'', JArr [JObj [(''id'', JInt 1), (''title'', JStr ''Buy milk''),
                                             (''priority'', JStr ''High''),
                                             (''status'', JStr ''Pending''),
                                             (''created_at'', JStr ''yesterday''),
                                             (''updated_at'', JStr ''2024-01-02T03:04:05'')]]),
                      (''next_id'', JInt 2)]))
     (mk_datetime 2024 6 1 0 0 0 0) = Inl ValueError \<and>
   TaskManager_init (Document (JArr [])) (mk_datetime 2024 6 1 0 0 0 0) = Inl TypeError \<and>
   TaskManager_init (Document (JObj [(''tasks'', JInt 5)])) (mk_datetime 2024 6 1 0 0 0 0) =
     Inl TypeError \<and>
   TaskManager_init NotUTF8 (mk_datetime 2024 6 1 0 0 0 0) = Inl UnicodeDecodeError"
proof -
  have t: "fromisoformat ''yesterday'' = Inl ValueError"
    by (simp add: fromisoformat_def is_digit_def)
  show ?thesis
    by (simp add: load_eval t)
qed

end
